theory Spec2Isabelle
  imports Complex_Main "HOL-Library.Sublist"
begin

section \<open>Values of the page script\<close>

text \<open>
  The development embeds \<^verbatim>\<open>script.js\<close>, the script of a static portfolio page.
  Every handler of the script reads and writes elements of the document, so every
  handler is a function from the elements it touches to the elements as it leaves them.

  A JavaScript string is modelled by its UTF-8 bytes (\<^typ>\<open>string\<close>). For the
  well-formed strings of a page this keeps the substring relation of
  \<^verbatim>\<open>String.prototype.includes\<close> and it is exactly the byte sequence that
  \<^verbatim>\<open>encodeURIComponent\<close> escapes. A value that may be \<^verbatim>\<open>null\<close> (an absent
  attribute, an element that \<^verbatim>\<open>querySelector\<close> does not find) is an
  \<^typ>\<open>'a option\<close>. Scroll offsets and client rectangles are fractional in the
  browser and are reals; \<^verbatim>\<open>offsetTop\<close> and \<^verbatim>\<open>innerHeight\<close> are integers.
\<close>

datatype js_error = TypeError

text \<open>\<^verbatim>\<open>String(v)\<close> for a value that is a string or \<^verbatim>\<open>null\<close>.\<close>

definition js_to_string :: "string option \<Rightarrow> string" where
  "js_to_string v = (case v of None \<Rightarrow> ''null'' | Some s \<Rightarrow> s)"

text \<open>\<^verbatim>\<open>h.includes(s)\<close>: \<open>s\<close> occurs in \<open>h\<close> at some position.\<close>

fun str_includes :: "string \<Rightarrow> string \<Rightarrow> bool" where
  "str_includes [] s = (s = [])"
| "str_includes (c # h) s = (prefix s (c # h) \<or> str_includes h s)"

subsection \<open>Elements and their class lists\<close>

text \<open>
  A \<^verbatim>\<open>DOMTokenList\<close> is an ordered collection of tokens: \<^verbatim>\<open>add\<close> appends a
  token that is not there, \<^verbatim>\<open>remove\<close> deletes it, \<^verbatim>\<open>toggle\<close> does the one
  or the other.
\<close>

definition classList_contains :: "string \<Rightarrow> string list \<Rightarrow> bool" where
  "classList_contains t cs = (t \<in> set cs)"

definition classList_add :: "string \<Rightarrow> string list \<Rightarrow> string list" where
  "classList_add t cs = (if t \<in> set cs then cs else cs @ [t])"

definition classList_remove :: "string \<Rightarrow> string list \<Rightarrow> string list" where
  "classList_remove t cs = removeAll t cs"

definition classList_toggle :: "string \<Rightarrow> string list \<Rightarrow> string list" where
  "classList_toggle t cs = (if t \<in> set cs then removeAll t cs else cs @ [t])"

record element =
  classList :: "string list"

record styled_element = element +
  style_display :: string

section \<open>Scroll tracker and navigation highlighter\<close>

text \<open>
  \<^verbatim>\<open>
  const sections = document.querySelectorAll('section');
  const navLinksArray = Array.from(navLinks);

  function updateActiveNav() {
      let current = '';
      sections.forEach(section => {
          const sectionTop = section.offsetTop;
          const sectionHeight = section.clientHeight;
          if (window.scrollY >= sectionTop - 200) {
              current = section.getAttribute('id');
          }
      });

      navLinksArray.forEach(link => {
          link.classList.remove('active');
          if (link.getAttribute('href').includes(current)) {
              link.classList.add('active');
          }
      });
  }
  \<close>
  A section is read through \<^verbatim>\<open>offsetTop\<close> and its \<^verbatim>\<open>id\<close> attribute, a
  navigation link through its \<^verbatim>\<open>href\<close> attribute and its class list. Both
  attributes are \<^verbatim>\<open>null\<close> when the markup leaves them out.
\<close>

record section_el =
  offsetTop :: int
  id_attr :: "string option"

record nav_link = element +
  href :: "string option"

text \<open>
  The first loop. \<open>current\<close> starts as the empty string and is overwritten by every
  section that passes the test, so the last one in document order is retained.
\<close>

fun scan_sections :: "real \<Rightarrow> section_el list \<Rightarrow> string option \<Rightarrow> string option" where
  "scan_sections scrollY [] current = current"
| "scan_sections scrollY (s # ss) current =
     scan_sections scrollY ss
       (if scrollY \<ge> of_int (offsetTop s - 200) then id_attr s else current)"

definition current_section :: "real \<Rightarrow> section_el list \<Rightarrow> string option" where
  "current_section scrollY secs = scan_sections scrollY secs (Some '''')"

text \<open>
  The body of the second loop for one link. The class is removed before the
  \<^verbatim>\<open>href\<close> is read; reading \<^verbatim>\<open>includes\<close> of a \<^verbatim>\<open>null\<close> attribute throws.
\<close>

definition unmark_link :: "nav_link \<Rightarrow> nav_link" where
  "unmark_link l = l\<lparr>classList := classList_remove ''active'' (classList l)\<rparr>"

definition mark_link :: "string option \<Rightarrow> nav_link \<Rightarrow> js_error + nav_link" where
  "mark_link current l =
     (let l1 = unmark_link l in
      case href l1 of
        None \<Rightarrow> Inl TypeError
      | Some h \<Rightarrow>
          if str_includes h (js_to_string current)
          then Inr (l1\<lparr>classList := classList_add ''active'' (classList l1)\<rparr>)
          else Inr l1)"

text \<open>
  The second loop. An exception ends \<^verbatim>\<open>forEach\<close>: the links before the offending
  one are updated, the offending one has lost its marker, the rest is untouched.
\<close>

fun mark_links :: "string option \<Rightarrow> nav_link list \<Rightarrow> nav_link list \<times> js_error option" where
  "mark_links current [] = ([], None)"
| "mark_links current (l # ls) =
     (case mark_link current l of
        Inl e \<Rightarrow> (unmark_link l # ls, Some e)
      | Inr l' \<Rightarrow> (case mark_links current ls of (ls', r) \<Rightarrow> (l' # ls', r)))"

definition updateActiveNav ::
  "real \<Rightarrow> section_el list \<Rightarrow> nav_link list \<Rightarrow> nav_link list \<times> js_error option" where
  "updateActiveNav scrollY secs links = mark_links (current_section scrollY secs) links"

definition is_active :: "nav_link \<Rightarrow> bool" where
  "is_active l = classList_contains ''active'' (classList l)"

section \<open>Skill reveal\<close>

text \<open>
  \<^verbatim>\<open>
  const skillBars = document.querySelectorAll('.skill-progress');
  const animateSkills = () => {
      skillBars.forEach(bar => {
          const progress = bar.getAttribute('data-progress');
          const rect = bar.getBoundingClientRect();
          const isVisible = rect.top >= 0 && rect.bottom <= window.innerHeight;

          if (isVisible && !bar.classList.contains('animated')) {
              bar.style.width = progress + '%';
              bar.classList.add('animated');
          }
      });
  };
  \<close>
  A bar carries its \<^verbatim>\<open>data-progress\<close> attribute, the value last assigned to
  \<^verbatim>\<open>style.width\<close>, and the client rectangle that the layout gives it at the time
  of the call.
\<close>

record skill_bar = element +
  data_progress :: "string option"
  style_width :: string
  rect_top :: real
  rect_bottom :: real

definition isVisible :: "int \<Rightarrow> skill_bar \<Rightarrow> bool" where
  "isVisible innerHeight bar = (rect_top bar \<ge> 0 \<and> rect_bottom bar \<le> of_int innerHeight)"

definition animate_bar :: "int \<Rightarrow> skill_bar \<Rightarrow> skill_bar" where
  "animate_bar innerHeight bar =
     (let progress = data_progress bar in
      if isVisible innerHeight bar \<and> \<not> classList_contains ''animated'' (classList bar)
      then bar\<lparr>classList := classList_add ''animated'' (classList bar),
               style_width := js_to_string progress @ ''%''\<rparr>
      else bar)"

definition animateSkills :: "int \<Rightarrow> skill_bar list \<Rightarrow> skill_bar list" where
  "animateSkills innerHeight bars = map (animate_bar innerHeight) bars"

text \<open>
  Between two calls the page may scroll or resize: every later call meets its own
  viewport height and its own rectangle of the bar. A history of later calls for one
  bar is the list of these readings, oldest first.
\<close>

fun later_checks :: "(int \<times> real \<times> real) list \<Rightarrow> skill_bar \<Rightarrow> skill_bar" where
  "later_checks [] bar = bar"
| "later_checks ((h, t, b) # cs) bar =
     later_checks cs (animate_bar h (bar\<lparr>rect_top := t, rect_bottom := b\<rparr>))"

section \<open>Image carousel\<close>

text \<open>
  \<^verbatim>\<open>
  projectCards.forEach(card => {
      const images = card.querySelectorAll('.project-img');
      const prevBtn = card.querySelector('.prev-btn');
      const nextBtn = card.querySelector('.next-btn');

      if (images.length <= 1) {
          // Hide navigation if only one image
          const imageNav = card.querySelector('.image-nav');
          if (imageNav) imageNav.style.display = 'none';
          return;
      }

      let currentImageIndex = 0;

      function showImage(index) {
          images.forEach(img => img.classList.remove('active'));
          images[index].classList.add('active');
      }

      if (prevBtn) {
          prevBtn.addEventListener('click', () => {
              currentImageIndex = (currentImageIndex - 1 + images.length) % images.length;
              showImage(currentImageIndex);
          });
      }

      if (nextBtn) {
          nextBtn.addEventListener('click', () => {
              currentImageIndex = (currentImageIndex + 1) % images.length;
              showImage(currentImageIndex);
          });
      }

      // Auto-rotate images every 5 seconds
      setInterval(() => {
          currentImageIndex = (currentImageIndex + 1) % images.length;
          showImage(currentImageIndex);
      }, 5000);
  });
  \<close>
  A card is what the three queries and the guarded fourth one find in it.
\<close>

record project_card =
  images :: "element list"
  prevBtn :: "styled_element option"
  nextBtn :: "styled_element option"
  imageNav :: "styled_element option"

text \<open>
  What the callback leaves behind for a card with more than one image: the variable
  \<^verbatim>\<open>currentImageIndex\<close> of the closure, which of the two click listeners were
  added, and the period of the interval timer. A card with at most one image returns
  before any of this exists.
\<close>

record carousel =
  currentImageIndex :: int
  prev_listener :: bool
  next_listener :: bool
  interval :: nat

record card_state =
  card_el :: project_card
  rotation :: "carousel option"

definition setup_card :: "project_card \<Rightarrow> card_state" where
  "setup_card c =
     (if length (images c) \<le> 1
      then \<lparr>card_el = c\<lparr>imageNav :=
                     (case imageNav c of
                        None \<Rightarrow> None
                      | Some nav \<Rightarrow> Some (nav\<lparr>style_display := ''none''\<rparr>))\<rparr>,
            rotation = None\<rparr>
      else \<lparr>card_el = c,
            rotation = Some \<lparr>currentImageIndex = 0,
                             prev_listener = (prevBtn c \<noteq> None),
                             next_listener = (nextBtn c \<noteq> None),
                             interval = 5000\<rparr>\<rparr>)"

text \<open>
  The remainder operator of JavaScript takes the sign of the dividend. A zero divisor
  gives \<^verbatim>\<open>NaN\<close>; the listeners exist only where the divisor is at least two.
\<close>

definition js_rem :: "int \<Rightarrow> int \<Rightarrow> int" where
  "js_rem a b = sgn a * (\<bar>a\<bar> mod \<bar>b\<bar>)"

text \<open>
  \<^verbatim>\<open>showImage\<close>. An index outside the list reads \<^verbatim>\<open>undefined\<close>, whose
  \<^verbatim>\<open>classList\<close> throws after every image has lost its marker.
\<close>

definition showImage :: "element list \<Rightarrow> int \<Rightarrow> element list \<times> js_error option" where
  "showImage imgs index =
     (let imgs1 = map (\<lambda>img. img\<lparr>classList := classList_remove ''active'' (classList img)\<rparr>) imgs in
      if 0 \<le> index \<and> index < int (length imgs1)
      then (imgs1[nat index :=
                    (imgs1 ! nat index)\<lparr>classList :=
                       classList_add ''active'' (classList (imgs1 ! nat index))\<rparr>], None)
      else (imgs1, Some TypeError))"

definition prev_index :: "int \<Rightarrow> nat \<Rightarrow> int" where
  "prev_index i n = js_rem (i - 1 + int n) (int n)"

definition next_index :: "int \<Rightarrow> nat \<Rightarrow> int" where
  "next_index i n = js_rem (i + 1) (int n)"

text \<open>The shared body of the three callbacks: assign the index, then show it.\<close>

definition rotate_to :: "int \<Rightarrow> carousel \<Rightarrow> card_state \<Rightarrow> card_state \<times> js_error option" where
  "rotate_to i cr s =
     (case showImage (images (card_el s)) i of
        (imgs, r) \<Rightarrow>
          (\<lparr>card_el = (card_el s)\<lparr>images := imgs\<rparr>,
            rotation = Some (cr\<lparr>currentImageIndex := i\<rparr>)\<rparr>, r))"

datatype card_event = PrevClick | NextClick | TimerFire

text \<open>
  Delivering an event to a card runs the callback registered for it, if there is one.
\<close>

definition handle_card :: "card_event \<Rightarrow> card_state \<Rightarrow> card_state \<times> js_error option" where
  "handle_card ev s =
     (case rotation s of
        None \<Rightarrow> (s, None)
      | Some cr \<Rightarrow>
          (let n = length (images (card_el s)); i = currentImageIndex cr in
           case ev of
             PrevClick \<Rightarrow> if prev_listener cr then rotate_to (prev_index i n) cr s else (s, None)
           | NextClick \<Rightarrow> if next_listener cr then rotate_to (next_index i n) cr s else (s, None)
           | TimerFire \<Rightarrow> rotate_to (next_index i n) cr s))"

text \<open>
  A sequence of events, one after the other. An exception ends the callback that
  threw, not the page: the later events are still delivered, and the errors are
  collected in order.
\<close>

fun run_card :: "card_event list \<Rightarrow> card_state \<Rightarrow> card_state \<times> js_error list" where
  "run_card [] s = (s, [])"
| "run_card (ev # evs) s =
     (case handle_card ev s of
        (s1, r) \<Rightarrow>
          (case run_card evs s1 of
             (s2, rs) \<Rightarrow> (s2, (case r of None \<Rightarrow> [] | Some e \<Rightarrow> [e]) @ rs)))"

definition shown_index :: "card_state \<Rightarrow> int option" where
  "shown_index s = map_option currentImageIndex (rotation s)"

definition displayed :: "card_state \<Rightarrow> nat list" where
  "displayed s =
     filter (\<lambda>k. classList_contains ''active'' (classList (images (card_el s) ! k)))
       [0 ..< length (images (card_el s))]"

section \<open>Contact composer\<close>

text \<open>
  \<^verbatim>\<open>
  const contactForm = document.querySelector('.contact-form');
  if (contactForm) {
      contactForm.addEventListener('submit', function(e) {
          e.preventDefault();
          const formData = new FormData(contactForm);
          const name = formData.get('name');
          const email = formData.get('email');
          const subject = formData.get('subject');
          const message = formData.get('message');
          const mailtoLink = `mailto:imriteshreddy1035@gmail.com?subject=${
              encodeURIComponent(subject)}&body=${encodeURIComponent(
              `Name: ${name}\nEmail: ${email}\n\nMessage:\n${message}`)}`;
          window.location.href = mailtoLink;
          const button = contactForm.querySelector('button[type="submit"]');
          const originalText = button.innerHTML;
          button.innerHTML = '<i class="fas fa-check"></i> Message Prepared!';
          button.style.background = '#10b981';
          setTimeout(() => {
              button.innerHTML = originalText;
              button.style.background = '';
              contactForm.reset();
          }, 3000);
      });
  }
  \<close>
\<close>

subsection \<open>Percent encoding\<close>

text \<open>
  \<^verbatim>\<open>encodeURIComponent\<close> keeps the letters, the digits and the marks
  \<^verbatim>\<open>- _ . ! ~ * ' ( )\<close> and writes every other byte of the UTF-8 form as
  \<^verbatim>\<open>%XX\<close> with upper-case hexadecimal digits.
\<close>

definition uri_unreserved :: "char \<Rightarrow> bool" where
  "uri_unreserved c =
     (let n = (of_char c :: nat) in
      (65 \<le> n \<and> n \<le> 90) \<or> (97 \<le> n \<and> n \<le> 122) \<or> (48 \<le> n \<and> n \<le> 57)
      \<or> c \<in> set ''-_.!~*()'' \<or> n = 39)"

definition hex_digit :: "nat \<Rightarrow> char" where
  "hex_digit n = ''0123456789ABCDEF'' ! n"

definition encode_byte :: "char \<Rightarrow> string" where
  "encode_byte c =
     (if uri_unreserved c then [c]
      else [CHR ''%'', hex_digit ((of_char c :: nat) div 16), hex_digit ((of_char c :: nat) mod 16)])"

definition encodeURIComponent :: "string \<Rightarrow> string" where
  "encodeURIComponent s = concat (map encode_byte s)"

text \<open>
  The reading of a component by whoever receives the request (the mail handler of the
  platform, not the script): \<^verbatim>\<open>%XX\<close> stands for a byte, every other character for
  itself. It is here to say what a request contains.
\<close>

definition hex_value :: "char \<Rightarrow> nat option" where
  "hex_value c =
     (let n = (of_char c :: nat) in
      if 48 \<le> n \<and> n \<le> 57 then Some (n - 48)
      else if 65 \<le> n \<and> n \<le> 70 then Some (n - 55)
      else if 97 \<le> n \<and> n \<le> 102 then Some (n - 87)
      else None)"

fun percent_decode :: "string \<Rightarrow> string option" where
  "percent_decode [] = Some []"
| "percent_decode (c # cs) =
     (if c = CHR ''%''
      then (case cs of
              h # l # rest \<Rightarrow>
                (case (hex_value h, hex_value l) of
                   (Some a, Some b) \<Rightarrow>
                     map_option ((#) (char_of (16 * a + b))) (percent_decode rest)
                 | _ \<Rightarrow> None)
            | _ \<Rightarrow> None)
      else map_option ((#) c) (percent_decode cs))"

subsection \<open>The form and the submit listener\<close>

text \<open>
  The fields of the form are text controls: each has a name, the default value of the
  markup and the value the visitor typed. \<^verbatim>\<open>FormData.get\<close> returns the value of
  the first control of that name, or \<^verbatim>\<open>null\<close>. \<^verbatim>\<open>form.reset()\<close> gives every
  control its default value back. The submit control is what
  \<^verbatim>\<open>button[type="submit"]\<close> finds in the form.
\<close>

record form_field =
  field_name :: string
  default_value :: string
  field_value :: string

record submit_button =
  innerHTML :: string
  style_background :: string

record contact_form =
  form_fields :: "form_field list"
  submit_btn :: "submit_button option"

definition formData_get :: "form_field list \<Rightarrow> string \<Rightarrow> string option" where
  "formData_get fs n = map_option field_value (find (\<lambda>f. field_name f = n) fs)"

definition form_reset :: "form_field list \<Rightarrow> form_field list" where
  "form_reset fs = map (\<lambda>f. f\<lparr>field_value := default_value f\<rparr>) fs"

definition recipient :: string where
  "recipient = ''imriteshreddy1035@gmail.com''"

definition message_body :: "string option \<Rightarrow> string option \<Rightarrow> string option \<Rightarrow> string" where
  "message_body name email message =
     ''Name: '' @ js_to_string name @ ''\<newline>Email: '' @ js_to_string email
       @ ''\<newline>\<newline>Message:\<newline>'' @ js_to_string message"

definition mailtoLink ::
  "string option \<Rightarrow> string option \<Rightarrow> string option \<Rightarrow> string option \<Rightarrow> string" where
  "mailtoLink name email subject message =
     ''mailto:'' @ recipient @ ''?subject='' @ encodeURIComponent (js_to_string subject)
       @ ''&body='' @ encodeURIComponent (message_body name email message)"

text \<open>
  The state the listener works on: the form, the address the window was last sent to,
  and the pending time-outs, each with its delay and the label its callback captured.
\<close>

record contact_state =
  form :: contact_form
  location_href :: string
  timeouts :: "(nat \<times> string) list"

definition confirmation :: string where
  \<open>confirmation = ''<i class="fas fa-check"></i> Message Prepared!''\<close>

definition submit :: "contact_state \<Rightarrow> contact_state \<times> js_error option" where
  "submit s =
     (let fs = form_fields (form s);
          name = formData_get fs ''name'';
          email = formData_get fs ''email'';
          subject = formData_get fs ''subject'';
          message = formData_get fs ''message'';
          s1 = s\<lparr>location_href := mailtoLink name email subject message\<rparr>
      in case submit_btn (form s1) of
           None \<Rightarrow> (s1, Some TypeError)
         | Some button \<Rightarrow>
             (let originalText = innerHTML button in
              (s1\<lparr>form := (form s1)\<lparr>submit_btn :=
                      Some (button\<lparr>innerHTML := confirmation, style_background := ''#10b981''\<rparr>)\<rparr>,
                  timeouts := timeouts s1 @ [(3000, originalText)]\<rparr>, None)))"

text \<open>The callback of the time-out, with the label it captured.\<close>

definition restore :: "string \<Rightarrow> contact_state \<Rightarrow> contact_state" where
  "restore originalText s =
     s\<lparr>form := \<lparr>form_fields = form_reset (form_fields (form s)),
                 submit_btn = map_option
                   (\<lambda>button. button\<lparr>innerHTML := originalText, style_background := ''''\<rparr>)
                   (submit_btn (form s))\<rparr>\<rparr>"

text \<open>
  All time-outs have the same delay, so they fall due in the order they were set:
  the oldest pending one runs.
\<close>

definition fire_timeout :: "contact_state \<Rightarrow> contact_state" where
  "fire_timeout s =
     (case timeouts s of
        [] \<Rightarrow> s
      | (delay, originalText) # rest \<Rightarrow> restore originalText (s\<lparr>timeouts := rest\<rparr>))"

section \<open>Initialization\<close>

text \<open>
  The listener of \<^verbatim>\<open>DOMContentLoaded\<close> looks the hooks of the page up and sets the
  components up in the order of the file:
  \<^verbatim>\<open>
  const hamburger = document.querySelector('.hamburger');
  const navMenu = document.querySelector('.nav-menu');
  const navLinks = document.querySelectorAll('.nav-link');

  hamburger.addEventListener('click', function() {
      hamburger.classList.toggle('active');
      navMenu.classList.toggle('active');
  });

  navLinks.forEach(link => {
      link.addEventListener('click', function() {
          hamburger.classList.remove('active');
          navMenu.classList.remove('active');
      });
  });

  const navbar = document.querySelector('.navbar');
  window.addEventListener('scroll', function() {
      if (window.scrollY > 100) {
          navbar.classList.add('scrolled');
      } else {
          navbar.classList.remove('scrolled');
      }
  });
  ...
  const typingText = document.querySelector('.typing-text');
  if (typingText) { ... typingText.textContent = ''; ... setTimeout(typeWriter, 1000); }
  ...
  animateSkills(); // Check on load
  ...
  const contactForm = document.querySelector('.contact-form');
  if (contactForm) { contactForm.addEventListener('submit', ...); }
  \<close>
  The page is the hooks that the queries may or may not find.
\<close>

record page =
  hamburger :: "element option"
  navMenu :: "element option"
  navLinks :: "nav_link list"
  navbar :: "element option"
  sections :: "section_el list"
  typingText :: "string option"
  skillBars :: "skill_bar list"
  projectCards :: "project_card list"
  contactForm :: "contact_form option"
  innerHeight :: int
  location :: string

text \<open>
  The registrations of the listener, in the order of the file. The carousel
  registrations are kept with each card.
\<close>

datatype component =
    NavToggle | NavLinkClose | NavbarScroll | ActiveNavScroll | TypingTimer | SkillScroll
  | FadeInObserver | ContactSubmit | SocialHover | AnchorScroll | ThrottledScroll
  | LoadFade | KeyboardNav | PrintHooks

record app =
  nav_hamburger :: element
  nav_menu :: "element option"
  nav_links :: "nav_link list"
  nav_bar :: "element option"
  nav_sections :: "section_el list"
  typing_text :: "string option"
  skill_bars :: "skill_bar list"
  cards :: "card_state list"
  contact :: "contact_state option"
  registered :: "component list"

definition init :: "page \<Rightarrow> js_error + app" where
  "init p =
     (case hamburger p of
        None \<Rightarrow> Inl TypeError
      | Some h \<Rightarrow>
          Inr \<lparr>nav_hamburger = h,
               nav_menu = navMenu p,
               nav_links = navLinks p,
               nav_bar = navbar p,
               nav_sections = sections p,
               typing_text = map_option (\<lambda>text. '''') (typingText p),
               skill_bars = animateSkills (innerHeight p) (skillBars p),
               cards = map setup_card (projectCards p),
               contact = map_option
                 (\<lambda>f. \<lparr>form = f, location_href = location p, timeouts = []\<rparr>) (contactForm p),
               registered =
                 [NavToggle, NavLinkClose, NavbarScroll, ActiveNavScroll]
                 @ (if typingText p = None then [] else [TypingTimer])
                 @ [SkillScroll, FadeInObserver]
                 @ (if contactForm p = None then [] else [ContactSubmit])
                 @ [SocialHover, AnchorScroll, ThrottledScroll, LoadFade, KeyboardNav,
                    PrintHooks]\<rparr>)"

text \<open>The click listener of the toggle and the first scroll listener.\<close>

definition hamburger_click :: "app \<Rightarrow> app \<times> js_error option" where
  "hamburger_click a =
     (let a1 = a\<lparr>nav_hamburger := (nav_hamburger a)
                 \<lparr>classList := classList_toggle ''active'' (classList (nav_hamburger a))\<rparr>\<rparr> in
      case nav_menu a1 of
        None \<Rightarrow> (a1, Some TypeError)
      | Some m \<Rightarrow>
          (a1\<lparr>nav_menu := Some (m\<lparr>classList := classList_toggle ''active'' (classList m)\<rparr>)\<rparr>,
           None))"

definition navbar_scroll :: "real \<Rightarrow> app \<Rightarrow> app \<times> js_error option" where
  "navbar_scroll scrollY a =
     (case nav_bar a of
        None \<Rightarrow> (a, Some TypeError)
      | Some n \<Rightarrow>
          (a\<lparr>nav_bar := Some (n\<lparr>classList :=
                (if scrollY > 100 then classList_add ''scrolled'' (classList n)
                 else classList_remove ''scrolled'' (classList n))\<rparr>)\<rparr>, None))"

section \<open>Notions used in the statements\<close>

text \<open>The test of the first loop of \<^verbatim>\<open>updateActiveNav\<close>, named.\<close>

definition passes_threshold :: "real \<Rightarrow> section_el \<Rightarrow> bool" where
  "passes_threshold scrollY s = (scrollY \<ge> of_int (offsetTop s - 200))"

text \<open>The class list of a link after the body of the second loop, by the outcome of its test.\<close>

definition with_marker :: "bool \<Rightarrow> string list \<Rightarrow> string list" where
  "with_marker b cs =
     (if b then classList_add ''active'' (classList_remove ''active'' cs)
      else classList_remove ''active'' cs)"

text \<open>
  The highlighting as the specification words it: the active section is the last one
  that passes the threshold, if any; an entry is active when its target identifier is
  the identifier of the active section, and no entry is active when there is none. The
  target identifier of a link is its \<^verbatim>\<open>href\<close> without the leading \<^verbatim>\<open>#\<close>, as the
  smooth-scroll listener of the script reads it
  (\<^verbatim>\<open>this.getAttribute('href').substring(1)\<close>).
\<close>

definition spec_active_section :: "real \<Rightarrow> section_el list \<Rightarrow> section_el option" where
  "spec_active_section scrollY secs =
     (case filter (passes_threshold scrollY) secs of
        [] \<Rightarrow> None
      | q # qs \<Rightarrow> Some (last (q # qs)))"

definition target_identifier :: "nav_link \<Rightarrow> string option" where
  "target_identifier l = map_option (drop 1) (href l)"

definition spec_marker :: "real \<Rightarrow> section_el list \<Rightarrow> nav_link \<Rightarrow> bool" where
  "spec_marker scrollY secs l =
     (case spec_active_section scrollY secs of
        None \<Rightarrow> False
      | Some s \<Rightarrow>
          (case (target_identifier l, id_attr s) of
             (Some t, Some i) \<Rightarrow> t = i
           | _ \<Rightarrow> False))"

text \<open>
  What the callback of a card establishes and every callback of the card keeps: a card
  with at most one image has no rotation state; otherwise the index is a position of
  the image list.
\<close>

definition carousel_inv :: "card_state \<Rightarrow> bool" where
  "carousel_inv s =
     (case rotation s of
        None \<Rightarrow> length (images (card_el s)) \<le> 1
      | Some cr \<Rightarrow>
          1 < length (images (card_el s)) \<and> 0 \<le> currentImageIndex cr \<and>
          currentImageIndex cr < int (length (images (card_el s))))"

text \<open>
  The first clause of the carousel contract as the specification words it: on a card
  with at most one image the previous and next controls are hidden. A control of the
  card counts as hidden when its own display is \<^verbatim>\<open>none\<close> or, reading the controls
  as children of the card's \<^verbatim>\<open>.image-nav\<close> element, when that element's is.
\<close>

definition control_hidden :: "project_card \<Rightarrow> styled_element option \<Rightarrow> bool" where
  "control_hidden c ctl =
     (case ctl of
        None \<Rightarrow> True
      | Some b \<Rightarrow>
          style_display b = ''none'' \<or>
          (case imageNav c of None \<Rightarrow> False | Some nav \<Rightarrow> style_display nav = ''none''))"

definition spec_controls_hidden :: "project_card \<Rightarrow> bool" where
  "spec_controls_hidden c = (control_hidden c (prevBtn c) \<and> control_hidden c (nextBtn c))"

text \<open>
  The state after the confirmation as the specification words it, against the state
  before the submission: the label of the submit control is the one it had, and every
  field of the form is empty.
\<close>

definition spec_after_confirmation :: "contact_state \<Rightarrow> contact_state \<Rightarrow> bool" where
  "spec_after_confirmation before after =
     (map_option innerHTML (submit_btn (form after)) = map_option innerHTML (submit_btn (form before)) \<and>
      list_all (\<lambda>f. field_value f = '''') (form_fields (form after)))"

section \<open>Properties of the navigation highlighter\<close>

lemma str_includes_sublist: "str_includes h s \<longleftrightarrow> sublist s h"
  by (induction h) (auto simp: sublist_Cons_right)

lemma str_includes_substring: "str_includes h s \<longleftrightarrow> (\<exists>p q. h = p @ s @ q)"
  by (simp add: str_includes_sublist sublist_def)

lemma str_includes_empty: "str_includes h []"
  by (simp add: str_includes_sublist)

lemma scan_sections_last:
  "scan_sections y secs cur =
     (case filter (passes_threshold y) secs of
        [] \<Rightarrow> cur
      | q # qs \<Rightarrow> id_attr (last (q # qs)))"
  by (induction secs arbitrary: cur) (auto simp: passes_threshold_def split: list.splits)

lemma current_section_none:
  "\<forall>s \<in> set secs. \<not> passes_threshold y s \<Longrightarrow> current_section y secs = Some ''''"
proof -
  assume "\<forall>s \<in> set secs. \<not> passes_threshold y s"
  then have "filter (passes_threshold y) secs = []"
    by (simp add: filter_empty_conv)
  then show ?thesis
    by (simp add: current_section_def scan_sections_last)
qed

lemma current_section_last:
  "filter (passes_threshold y) secs \<noteq> [] \<Longrightarrow>
     current_section y secs = id_attr (last (filter (passes_threshold y) secs))"
  by (cases "filter (passes_threshold y) secs")
     (simp_all add: current_section_def scan_sections_last)

lemma mark_link_present:
  "href l = Some h \<Longrightarrow>
     mark_link cur l =
       Inr (l\<lparr>classList := with_marker (str_includes h (js_to_string cur)) (classList l)\<rparr>)"
  by (simp add: mark_link_def unmark_link_def with_marker_def Let_def)

lemma mark_links_present:
  "\<forall>l \<in> set links. href l \<noteq> None \<Longrightarrow>
     mark_links cur links =
       (map (\<lambda>l. l\<lparr>classList :=
                with_marker (str_includes (the (href l)) (js_to_string cur)) (classList l)\<rparr>) links,
        None)"
  by (induction links) (auto simp: mark_link_present)

lemma active_with_marker: "classList_contains ''active'' (with_marker b cs) \<longleftrightarrow> b"
  by (simp add: with_marker_def classList_contains_def classList_add_def classList_remove_def)

lemma other_class_with_marker:
  "t \<noteq> ''active'' \<Longrightarrow> classList_contains t (with_marker b cs) \<longleftrightarrow> classList_contains t cs"
  by (auto simp: with_marker_def classList_contains_def classList_add_def classList_remove_def)

text \<open>
  C10. In \<^verbatim>\<open>updateActiveNav\<close> a navigation entry receives the active marker exactly
  when the identifier of the active section is a substring of the entry's
  \<^verbatim>\<open>href\<close>. When no section passes the threshold the identifier is the empty
  string, which is a substring of every \<^verbatim>\<open>href\<close>, so every entry receives the
  marker. (Every link is taken to have an \<^verbatim>\<open>href\<close>; without one the handler
  throws.)
\<close>

theorem updateActiveNav_marks_substrings:
  assumes "\<forall>l \<in> set links. href l \<noteq> None"
  shows "\<exists>res. updateActiveNav y secs links = (res, None) \<and> length res = length links \<and>
           (\<forall>k < length links. \<forall>h. href (links ! k) = Some h \<longrightarrow>
              (is_active (res ! k) \<longleftrightarrow>
                 (\<exists>p q. h = p @ js_to_string (current_section y secs) @ q))) \<and>
           ((\<forall>s \<in> set secs. \<not> y \<ge> of_int (offsetTop s - 200)) \<longrightarrow>
              current_section y secs = Some '''' \<and> (\<forall>k < length links. is_active (res ! k)))"
proof -
  let ?cur = "current_section y secs"
  let ?res = "map (\<lambda>l. l\<lparr>classList :=
                with_marker (str_includes (the (href l)) (js_to_string ?cur)) (classList l)\<rparr>) links"
  have run: "updateActiveNav y secs links = (?res, None)"
    using assms by (simp add: updateActiveNav_def mark_links_present)
  have act: "is_active (?res ! k) \<longleftrightarrow> (\<exists>p q. h = p @ js_to_string ?cur @ q)"
    if "k < length links" "href (links ! k) = Some h" for k h
    using that by (simp add: is_active_def active_with_marker str_includes_substring)
  have top: "?cur = Some '''' \<and> (\<forall>k < length links. is_active (?res ! k))"
    if none: "\<forall>s \<in> set secs. \<not> y \<ge> of_int (offsetTop s - 200)"
  proof -
    have cur: "?cur = Some ''''"
      using none by (intro current_section_none) (simp add: passes_threshold_def)
    then show ?thesis
      by (simp add: is_active_def active_with_marker js_to_string_def str_includes_empty)
  qed
  have c2: "length ?res = length links" by simp
  have c3: "\<forall>k < length links. \<forall>h. href (links ! k) = Some h \<longrightarrow>
              (is_active (?res ! k) \<longleftrightarrow>
                 (\<exists>p q. h = p @ js_to_string ?cur @ q))"
    using act by blast
  have c4: "(\<forall>s \<in> set secs. \<not> y \<ge> of_int (offsetTop s - 200)) \<longrightarrow>
              ?cur = Some '''' \<and> (\<forall>k < length links. is_active (?res ! k))"
    using top by blast
  from run c2 c3 c4 show ?thesis by blast
qed

text \<open>
  The theorem at a page whose only section starts at offset 1000, scrolled to the top,
  with two links: both links end up active.
\<close>

theorem updateActiveNav_marks_substrings_witness:
  "list_all (\<lambda>l. href l \<noteq> None)
     [\<lparr>classList = [''nav-link''], href = Some ''#home''\<rparr>,
      \<lparr>classList = [''nav-link''], href = Some ''#about''\<rparr>] \<and>
   list_all (\<lambda>s. \<not> (0::real) \<ge> of_int (offsetTop s - 200))
     [\<lparr>offsetTop = 1000, id_attr = Some ''about''\<rparr>] \<and>
   (\<exists>res. updateActiveNav 0 [\<lparr>offsetTop = 1000, id_attr = Some ''about''\<rparr>]
             [\<lparr>classList = [''nav-link''], href = Some ''#home''\<rparr>,
              \<lparr>classList = [''nav-link''], href = Some ''#about''\<rparr>] = (res, None) \<and>
          is_active (res ! 0) \<and> is_active (res ! 1))"
  using updateActiveNav_marks_substrings
    [of "[\<lparr>classList = [''nav-link''], href = Some ''#home''\<rparr>,
          \<lparr>classList = [''nav-link''], href = Some ''#about''\<rparr>]" 0
        "[\<lparr>offsetTop = 1000, id_attr = Some ''about''\<rparr>]"]
  by auto

text \<open>
  C1. For every scroll offset, after \<^verbatim>\<open>updateActiveNav\<close> has run, at most one
  navigation entry carries the active marker. The handler does not keep this: on a page
  whose first section starts below offset 200, at scroll offset 0 no section passes the
  threshold, \<open>current\<close> stays the empty string and both links of the page below are
  marked.
\<close>

theorem updateActiveNav_top_of_page:
  "updateActiveNav 0 [\<lparr>offsetTop = 1000, id_attr = Some ''about''\<rparr>]
     [\<lparr>classList = [''nav-link''], href = Some ''#home''\<rparr>,
      \<lparr>classList = [''nav-link''], href = Some ''#about''\<rparr>]
   = ([\<lparr>classList = [''nav-link'', ''active''], href = Some ''#home''\<rparr>,
       \<lparr>classList = [''nav-link'', ''active''], href = Some ''#about''\<rparr>], None)"
  by (simp add: updateActiveNav_def current_section_def mark_link_def unmark_link_def
      classList_add_def classList_remove_def js_to_string_def)

text \<open>
  C2, as the specification states it: the active section is the last one that passes the
  threshold, the marker goes exactly to the entry whose target identifier is the
  identifier of that section, and no entry is marked when no section passes. The handler
  compares by containment, not by equality: with the section \<^verbatim>\<open>about\<close> active, the
  links \<^verbatim>\<open>#about\<close> and \<^verbatim>\<open>#about-me\<close> are both marked, where the specification
  marks the first only.
\<close>

theorem updateActiveNav_differs_from_spec:
  "map is_active (fst (updateActiveNav 0 [\<lparr>offsetTop = 0, id_attr = Some ''about''\<rparr>]
       [\<lparr>classList = [], href = Some ''#about''\<rparr>,
        \<lparr>classList = [], href = Some ''#about-me''\<rparr>])) = [True, True]
   \<and> map (spec_marker 0 [\<lparr>offsetTop = 0, id_attr = Some ''about''\<rparr>])
       [\<lparr>classList = [], href = Some ''#about''\<rparr>,
        \<lparr>classList = [], href = Some ''#about-me''\<rparr>] = [True, False]"
  by (simp add: updateActiveNav_def current_section_def mark_link_def unmark_link_def
      classList_add_def classList_remove_def js_to_string_def is_active_def
      classList_contains_def spec_marker_def spec_active_section_def passes_threshold_def
      target_identifier_def)

text \<open>
  C2, amended. On every scroll update \<^verbatim>\<open>updateActiveNav\<close> selects the last section
  in scan order whose top offset minus 200 is at most the scroll offset. When there is
  such a section and every link has an \<^verbatim>\<open>href\<close>, the handler returns normally, sets
  the active marker exactly on the entries whose \<^verbatim>\<open>href\<close> contains the identifier of
  that section and clears it on all others; no other class of a link changes.
\<close>

theorem updateActiveNav_last_section:
  assumes "\<forall>l \<in> set links. href l \<noteq> None"
    and "filter (passes_threshold y) secs \<noteq> []"
  shows "current_section y secs = id_attr (last (filter (passes_threshold y) secs)) \<and>
         (\<exists>res. updateActiveNav y secs links = (res, None) \<and> length res = length links \<and>
            (\<forall>k < length links. \<forall>h. href (links ! k) = Some h \<longrightarrow>
               href (res ! k) = Some h \<and>
               (is_active (res ! k) \<longleftrightarrow>
                  (\<exists>p q. h = p @ js_to_string (id_attr (last (filter (passes_threshold y) secs))) @ q)) \<and>
               (\<forall>t. t \<noteq> ''active'' \<longrightarrow>
                  classList_contains t (classList (res ! k)) =
                  classList_contains t (classList (links ! k)))))"
proof -
  let ?cur = "current_section y secs"
  let ?res = "map (\<lambda>l. l\<lparr>classList :=
                with_marker (str_includes (the (href l)) (js_to_string ?cur)) (classList l)\<rparr>) links"
  have cur: "?cur = id_attr (last (filter (passes_threshold y) secs))"
    using assms(2) by (rule current_section_last)
  have run: "updateActiveNav y secs links = (?res, None)"
    using assms(1) by (simp add: updateActiveNav_def mark_links_present)
  have len: "length ?res = length links" by simp
  have each: "href (?res ! k) = Some h \<and>
      (is_active (?res ! k) \<longleftrightarrow> (\<exists>p q. h = p @ js_to_string ?cur @ q)) \<and>
      (\<forall>t. t \<noteq> ''active'' \<longrightarrow>
         classList_contains t (classList (?res ! k)) = classList_contains t (classList (links ! k)))"
    if "k < length links" "href (links ! k) = Some h" for k h
    using that
    by (simp add: is_active_def active_with_marker str_includes_substring other_class_with_marker)
  have all: "\<forall>k < length links. \<forall>h. href (links ! k) = Some h \<longrightarrow>
      href (?res ! k) = Some h \<and>
      (is_active (?res ! k) \<longleftrightarrow> (\<exists>p q. h = p @ js_to_string ?cur @ q)) \<and>
      (\<forall>t. t \<noteq> ''active'' \<longrightarrow>
         classList_contains t (classList (?res ! k)) = classList_contains t (classList (links ! k)))"
    using each by blast
  from run len all have "\<exists>res. updateActiveNav y secs links = (res, None) \<and> length res = length links \<and>
            (\<forall>k < length links. \<forall>h. href (links ! k) = Some h \<longrightarrow>
               href (res ! k) = Some h \<and>
               (is_active (res ! k) \<longleftrightarrow> (\<exists>p q. h = p @ js_to_string ?cur @ q)) \<and>
               (\<forall>t. t \<noteq> ''active'' \<longrightarrow>
                  classList_contains t (classList (res ! k)) =
                  classList_contains t (classList (links ! k))))"
    by blast
  with cur show ?thesis by simp
qed

text \<open>
  The theorem at a page of three sections scrolled to offset 900, where the second
  section has become the active one.
\<close>

theorem updateActiveNav_last_section_witness:
  "list_all (\<lambda>l. href l \<noteq> None)
     [\<lparr>classList = [''nav-link'', ''active''], href = Some ''#home''\<rparr>,
      \<lparr>classList = [''nav-link''], href = Some ''#about''\<rparr>] \<and>
   filter (passes_threshold 900) [\<lparr>offsetTop = 0, id_attr = Some ''home''\<rparr>,
                                  \<lparr>offsetTop = 1000, id_attr = Some ''about''\<rparr>,
                                  \<lparr>offsetTop = 2000, id_attr = Some ''skills''\<rparr>] \<noteq> [] \<and>
   current_section 900 [\<lparr>offsetTop = 0, id_attr = Some ''home''\<rparr>,
                        \<lparr>offsetTop = 1000, id_attr = Some ''about''\<rparr>,
                        \<lparr>offsetTop = 2000, id_attr = Some ''skills''\<rparr>] = Some ''about'' \<and>
   snd (updateActiveNav 900 [\<lparr>offsetTop = 0, id_attr = Some ''home''\<rparr>,
                        \<lparr>offsetTop = 1000, id_attr = Some ''about''\<rparr>,
                        \<lparr>offsetTop = 2000, id_attr = Some ''skills''\<rparr>]
          [\<lparr>classList = [''nav-link'', ''active''], href = Some ''#home''\<rparr>,
           \<lparr>classList = [''nav-link''], href = Some ''#about''\<rparr>]) = None"
  using updateActiveNav_last_section
    [of "[\<lparr>classList = [''nav-link'', ''active''], href = Some ''#home''\<rparr>,
          \<lparr>classList = [''nav-link''], href = Some ''#about''\<rparr>]" 900
        "[\<lparr>offsetTop = 0, id_attr = Some ''home''\<rparr>,
          \<lparr>offsetTop = 1000, id_attr = Some ''about''\<rparr>,
          \<lparr>offsetTop = 2000, id_attr = Some ''skills''\<rparr>]"]
  by (auto simp: passes_threshold_def)

section \<open>Properties of the skill reveal\<close>

lemma animate_bar_animated:
  "classList_contains ''animated'' (classList bar) \<Longrightarrow> animate_bar h bar = bar"
  by (simp add: animate_bar_def)

lemma animate_bar_fresh:
  "\<not> classList_contains ''animated'' (classList bar) \<Longrightarrow> isVisible h bar \<Longrightarrow>
     animate_bar h bar =
       bar\<lparr>classList := classList_add ''animated'' (classList bar),
           style_width := js_to_string (data_progress bar) @ ''%''\<rparr>"
  by (simp add: animate_bar_def)

lemma animate_bar_hidden: "\<not> isVisible h bar \<Longrightarrow> animate_bar h bar = bar"
  by (simp add: animate_bar_def)

lemma later_checks_animated:
  "classList_contains ''animated'' (classList bar) \<Longrightarrow>
     style_width (later_checks cs bar) = style_width bar \<and>
     classList (later_checks cs bar) = classList bar"
proof (induction cs arbitrary: bar)
  case Nil
  show ?case by simp
next
  case (Cons c cs)
  obtain h t b where c: "c = (h, t, b)" by (cases c)
  let ?moved = "bar\<lparr>rect_top := t, rect_bottom := b\<rparr>"
  have flag: "classList_contains ''animated'' (classList ?moved)"
    using Cons.prems by simp
  then have same: "animate_bar h ?moved = ?moved"
    by (rule animate_bar_animated)
  have "style_width (later_checks cs ?moved) = style_width ?moved \<and>
        classList (later_checks cs ?moved) = classList ?moved"
    using flag by (rule Cons.IH)
  then show ?case by (simp add: c same)
qed

lemma animate_bar_becomes_animated:
  assumes "\<not> classList_contains ''animated'' (classList bar)"
    and "classList_contains ''animated'' (classList (animate_bar h bar))"
  shows "isVisible h bar"
proof (rule ccontr)
  assume "\<not> isVisible h bar"
  then have "animate_bar h bar = bar" by (rule animate_bar_hidden)
  with assms show False by simp
qed

text \<open>
  C6. Once a skill bar is marked animated, no later call of \<^verbatim>\<open>animateSkills\<close>
  changes its displayed width, whatever the viewport and the position of the bar at
  that call, and the flag stays; and a bar that becomes animated in a call passed the
  strict test of that call: top at least 0 and bottom at most the viewport height.
\<close>

theorem animateSkills_animates_once:
  "(classList_contains ''animated'' (classList bar) \<longrightarrow>
      animate_bar h bar = bar \<and>
      style_width (later_checks cs bar) = style_width bar \<and>
      classList_contains ''animated'' (classList (later_checks cs bar))) \<and>
   (k < length bars \<and> classList_contains ''animated'' (classList (bars ! k)) \<longrightarrow>
      animateSkills h bars ! k = bars ! k) \<and>
   (\<not> classList_contains ''animated'' (classList bar) \<and>
    classList_contains ''animated'' (classList (animate_bar h bar)) \<longrightarrow>
      rect_top bar \<ge> 0 \<and> rect_bottom bar \<le> of_int h)"
proof (intro conjI impI)
  assume a: "classList_contains ''animated'' (classList bar)"
  show "animate_bar h bar = bar" using a by (rule animate_bar_animated)
  show "style_width (later_checks cs bar) = style_width bar"
    using later_checks_animated [OF a] by simp
  show "classList_contains ''animated'' (classList (later_checks cs bar))"
    using later_checks_animated [OF a, of cs] a by simp
next
  assume "k < length bars \<and> classList_contains ''animated'' (classList (bars ! k))"
  then show "animateSkills h bars ! k = bars ! k"
    by (simp add: animateSkills_def animate_bar_animated)
next
  assume b: "\<not> classList_contains ''animated'' (classList bar) \<and>
    classList_contains ''animated'' (classList (animate_bar h bar))"
  then have "isVisible h bar" by (intro animate_bar_becomes_animated) simp_all
  then show "rect_top bar \<ge> 0" and "rect_bottom bar \<le> of_int h"
    by (simp_all add: isVisible_def)
qed

text \<open>
  The theorem at an animated bar that later scrolls into and out of the viewport, and at
  a fresh bar inside the viewport, which is the one that gets its width.
\<close>

theorem animateSkills_animates_once_witness:
  "style_width (later_checks [(800, 10, 30), (800, -500, -480)]
      \<lparr>classList = [''skill-progress'', ''animated''], data_progress = Some ''75'',
       style_width = ''90%'', rect_top = 900, rect_bottom = 920\<rparr>) = ''90%'' \<and>
   animateSkills 800
     [\<lparr>classList = [''skill-progress'', ''animated''], data_progress = Some ''75'',
       style_width = ''90%'', rect_top = 10, rect_bottom = 30\<rparr>] ! 0 =
     \<lparr>classList = [''skill-progress'', ''animated''], data_progress = Some ''75'',
       style_width = ''90%'', rect_top = 10, rect_bottom = 30\<rparr> \<and>
   animate_bar 800
     \<lparr>classList = [''skill-progress''], data_progress = Some ''75'',
       style_width = '''', rect_top = 10, rect_bottom = 30\<rparr> =
     \<lparr>classList = [''skill-progress'', ''animated''], data_progress = Some ''75'',
       style_width = ''75%'', rect_top = 10, rect_bottom = 30\<rparr>"
  using animateSkills_animates_once
    [of "\<lparr>classList = [''skill-progress'', ''animated''], data_progress = Some ''75'',
       style_width = ''90%'', rect_top = 900, rect_bottom = 920\<rparr>" 800
       "[(800, 10, 30), (800, -500, -480)]" 0
       "[\<lparr>classList = [''skill-progress'', ''animated''], data_progress = Some ''75'',
       style_width = ''90%'', rect_top = 10, rect_bottom = 30\<rparr>]"]
  by (simp add: classList_contains_def animate_bar_def isVisible_def classList_add_def
      js_to_string_def)

section \<open>Properties of the carousel\<close>

lemma js_rem_nonneg: "0 \<le> a \<Longrightarrow> 0 < b \<Longrightarrow> js_rem a b = a mod b"
  by (cases "a = 0") (simp_all add: js_rem_def)

lemma next_index_mod: "0 \<le> i \<Longrightarrow> 0 < n \<Longrightarrow> next_index i n = (i + 1) mod int n"
  by (simp add: next_index_def js_rem_nonneg)

lemma prev_index_mod: "0 \<le> i \<Longrightarrow> 0 < n \<Longrightarrow> prev_index i n = (i - 1 + int n) mod int n"
  by (simp add: prev_index_def js_rem_nonneg)

lemma filter_upt_single:
  assumes "j < n" and "\<And>k. k < n \<Longrightarrow> P k \<longleftrightarrow> k = j"
  shows "filter P [0 ..< n] = [j]"
proof -
  have "filter P [0 ..< n] = filter (\<lambda>k. k = j) [0 ..< n]"
    using assms(2) by (intro filter_cong) simp_all
  also have "\<dots> = [j]"
    using assms(1) by (induction n) (auto simp: less_Suc_eq)
  finally show ?thesis .
qed

lemma showImage_in_range:
  assumes "0 \<le> i" and "i < int (length imgs)"
  shows "snd (showImage imgs i) = None"
    and "length (fst (showImage imgs i)) = length imgs"
    and "k < length imgs \<Longrightarrow>
           classList_contains ''active'' (classList (fst (showImage imgs i) ! k)) \<longleftrightarrow> k = nat i"
proof -
  show "snd (showImage imgs i) = None" and "length (fst (showImage imgs i)) = length imgs"
    using assms by (simp_all add: showImage_def Let_def)
  assume k: "k < length imgs"
  show "classList_contains ''active'' (classList (fst (showImage imgs i) ! k)) \<longleftrightarrow> k = nat i"
    using assms k
    by (auto simp: showImage_def Let_def nth_list_update classList_contains_def
        classList_add_def classList_remove_def)
qed

lemma rotate_to_in_range:
  assumes "0 \<le> j" and "j < int (length (images (card_el s)))"
  shows "snd (rotate_to j cr s) = None"
    and "rotation (fst (rotate_to j cr s)) = Some (cr\<lparr>currentImageIndex := j\<rparr>)"
    and "length (images (card_el (fst (rotate_to j cr s)))) = length (images (card_el s))"
    and "displayed (fst (rotate_to j cr s)) = [nat j]"
proof -
  obtain imgs r where sh: "showImage (images (card_el s)) j = (imgs, r)"
    by (cases "showImage (images (card_el s)) j")
  have r: "r = None" and len: "length imgs = length (images (card_el s))"
    using showImage_in_range(1,2) [OF assms] sh by simp_all
  have act: "classList_contains ''active'' (classList (imgs ! k)) \<longleftrightarrow> k = nat j"
    if "k < length imgs" for k
    using showImage_in_range(3) [OF assms, of k] sh that len by simp
  show "snd (rotate_to j cr s) = None"
    by (simp add: rotate_to_def sh r)
  show "rotation (fst (rotate_to j cr s)) = Some (cr\<lparr>currentImageIndex := j\<rparr>)"
    by (simp add: rotate_to_def sh)
  show "length (images (card_el (fst (rotate_to j cr s)))) = length (images (card_el s))"
    by (simp add: rotate_to_def sh len)
  have "nat j < length imgs" using assms len by simp
  then have "filter (\<lambda>k. classList_contains ''active'' (classList (imgs ! k))) [0 ..< length imgs] = [nat j]"
    using act by (rule filter_upt_single)
  then show "displayed (fst (rotate_to j cr s)) = [nat j]"
    by (simp add: displayed_def rotate_to_def sh)
qed

lemma handle_next:
  assumes "rotation s = Some cr" and "1 < length (images (card_el s))"
    and "0 \<le> currentImageIndex cr" and "currentImageIndex cr < int (length (images (card_el s)))"
    and "ev = TimerFire \<or> ev = NextClick \<and> next_listener cr"
  shows "handle_card ev s =
           rotate_to ((currentImageIndex cr + 1) mod int (length (images (card_el s)))) cr s"
proof -
  have "0 < length (images (card_el s))" using assms(2) by arith
  then have "next_index (currentImageIndex cr) (length (images (card_el s))) =
      (currentImageIndex cr + 1) mod int (length (images (card_el s)))"
    using assms(3) by (intro next_index_mod)
  then show ?thesis
    using assms(1,5) by (auto simp: handle_card_def Let_def)
qed

lemma handle_prev:
  assumes "rotation s = Some cr" and "1 < length (images (card_el s))"
    and "0 \<le> currentImageIndex cr" and "currentImageIndex cr < int (length (images (card_el s)))"
    and "prev_listener cr"
  shows "handle_card PrevClick s =
           rotate_to ((currentImageIndex cr - 1 + int (length (images (card_el s))))
                        mod int (length (images (card_el s)))) cr s"
proof -
  have "0 < length (images (card_el s))" using assms(2) by arith
  then have "prev_index (currentImageIndex cr) (length (images (card_el s))) =
      (currentImageIndex cr - 1 + int (length (images (card_el s))))
        mod int (length (images (card_el s)))"
    using assms(3) by (intro prev_index_mod)
  then show ?thesis
    using assms(1,5) by (simp add: handle_card_def Let_def)
qed

lemma handle_card_cases:
  assumes "rotation s = Some cr" and "1 < length (images (card_el s))"
    and "0 \<le> currentImageIndex cr" and "currentImageIndex cr < int (length (images (card_el s)))"
  shows "handle_card ev s = (s, None) \<or>
         (\<exists>j. 0 \<le> j \<and> j < int (length (images (card_el s))) \<and> handle_card ev s = rotate_to j cr s)"
proof -
  let ?n = "int (length (images (card_el s)))"
  have pos: "0 < ?n" using assms(2) by arith
  have nx: "0 \<le> (currentImageIndex cr + 1) mod ?n \<and> (currentImageIndex cr + 1) mod ?n < ?n"
    using pos by simp
  have pv: "0 \<le> (currentImageIndex cr - 1 + ?n) mod ?n \<and> (currentImageIndex cr - 1 + ?n) mod ?n < ?n"
    using pos by simp
  show ?thesis
  proof (cases ev)
    case PrevClick
    show ?thesis
    proof (cases "prev_listener cr")
      case True
      then show ?thesis using handle_prev [OF assms] pv PrevClick by blast
    next
      case False
      then show ?thesis using assms(1) PrevClick by (simp add: handle_card_def)
    qed
  next
    case NextClick
    show ?thesis
    proof (cases "next_listener cr")
      case True
      then show ?thesis using handle_next [OF assms, of ev] nx NextClick by blast
    next
      case False
      then show ?thesis using assms(1) NextClick by (simp add: handle_card_def)
    qed
  next
    case TimerFire
    then show ?thesis using handle_next [OF assms, of ev] nx by blast
  qed
qed

text \<open>What every event keeps: the invariant, the listeners, the number of images.\<close>

lemma handle_card_keeps:
  assumes "carousel_inv s"
  shows "snd (handle_card ev s) = None"
    and "carousel_inv (fst (handle_card ev s))"
    and "length (images (card_el (fst (handle_card ev s)))) = length (images (card_el s))"
    and "map_option prev_listener (rotation (fst (handle_card ev s))) = map_option prev_listener (rotation s)"
    and "map_option next_listener (rotation (fst (handle_card ev s))) = map_option next_listener (rotation s)"
proof -
  have "snd (handle_card ev s) = None \<and> carousel_inv (fst (handle_card ev s)) \<and>
      length (images (card_el (fst (handle_card ev s)))) = length (images (card_el s)) \<and>
      map_option prev_listener (rotation (fst (handle_card ev s))) = map_option prev_listener (rotation s) \<and>
      map_option next_listener (rotation (fst (handle_card ev s))) = map_option next_listener (rotation s)"
  proof (cases "rotation s")
    case None
    then show ?thesis using assms by (simp add: handle_card_def)
  next
    case (Some cr)
    have inv: "1 < length (images (card_el s))" "0 \<le> currentImageIndex cr"
      "currentImageIndex cr < int (length (images (card_el s)))"
      using assms Some by (simp_all add: carousel_inv_def)
    from handle_card_cases [OF Some inv, of ev] show ?thesis
    proof
      assume "handle_card ev s = (s, None)"
      then show ?thesis using assms by simp
    next
      assume "\<exists>j. 0 \<le> j \<and> j < int (length (images (card_el s))) \<and> handle_card ev s = rotate_to j cr s"
      then obtain j where j: "0 \<le> j" "j < int (length (images (card_el s)))"
        and h: "handle_card ev s = rotate_to j cr s" by blast
      show ?thesis
        using rotate_to_in_range(1,2,3) [OF j, of cr] inv j Some
        by (simp add: h carousel_inv_def)
    qed
  qed
  then show "snd (handle_card ev s) = None"
    and "carousel_inv (fst (handle_card ev s))"
    and "length (images (card_el (fst (handle_card ev s)))) = length (images (card_el s))"
    and "map_option prev_listener (rotation (fst (handle_card ev s))) = map_option prev_listener (rotation s)"
    and "map_option next_listener (rotation (fst (handle_card ev s))) = map_option next_listener (rotation s)"
    by simp_all
qed

lemma run_card_keeps:
  "carousel_inv s \<Longrightarrow>
     snd (run_card evs s) = [] \<and> carousel_inv (fst (run_card evs s)) \<and>
     length (images (card_el (fst (run_card evs s)))) = length (images (card_el s))"
proof (induction evs arbitrary: s)
  case Nil
  then show ?case by simp
next
  case (Cons ev evs)
  obtain s1 r where h: "handle_card ev s = (s1, r)" by (cases "handle_card ev s")
  have r: "r = None" and inv1: "carousel_inv s1"
    and len1: "length (images (card_el s1)) = length (images (card_el s))"
    using handle_card_keeps(1-3) [OF Cons.prems, of ev] h by simp_all
  obtain s2 rs where run: "run_card evs s1 = (s2, rs)" by (cases "run_card evs s1")
  have "rs = [] \<and> carousel_inv s2 \<and> length (images (card_el s2)) = length (images (card_el s1))"
    using Cons.IH [OF inv1] run by simp
  then show ?case by (simp add: h run r len1)
qed

lemma setup_card_inv: "carousel_inv (setup_card c)"
  by (auto simp: carousel_inv_def setup_card_def)

lemma fst_run_card_Cons:
  "fst (run_card (ev # evs) s) = fst (run_card evs (fst (handle_card ev s)))"
  by (simp split: prod.splits)

lemma run_card_forward:
  assumes "rotation s = Some cr" and "1 < length (images (card_el s))"
    and "0 \<le> currentImageIndex cr" and "currentImageIndex cr < int (length (images (card_el s)))"
    and "ev = TimerFire \<or> ev = NextClick \<and> next_listener cr"
  shows "shown_index (fst (run_card (replicate k ev) s)) =
           Some ((currentImageIndex cr + int k) mod int (length (images (card_el s))))"
  using assms
proof (induction k arbitrary: s cr)
  case 0
  then show ?case by (simp add: shown_index_def)
next
  case (Suc k)
  let ?n = "int (length (images (card_el s)))"
  let ?j = "(currentImageIndex cr + 1) mod ?n"
  let ?s1 = "fst (rotate_to ?j cr s)"
  let ?cr1 = "cr\<lparr>currentImageIndex := ?j\<rparr>"
  have pos: "0 < ?n" using Suc.prems(2) by arith
  have j: "0 \<le> ?j" "?j < ?n" using pos by simp_all
  have step: "handle_card ev s = rotate_to ?j cr s"
    using Suc.prems by (intro handle_next)
  have rot: "rotation ?s1 = Some ?cr1"
    and len: "length (images (card_el ?s1)) = length (images (card_el s))"
    using rotate_to_in_range(2,3) [OF j, of cr] by simp_all
  have "shown_index (fst (run_card (replicate k ev) ?s1)) =
          Some ((currentImageIndex ?cr1 + int k) mod int (length (images (card_el ?s1))))"
    using rot Suc.prems(2,5) j len by (intro Suc.IH) simp_all
  then have "shown_index (fst (run_card (replicate k ev) ?s1)) = Some ((?j + int k) mod ?n)"
    by (simp add: len)
  moreover have "(?j + int k) mod ?n = (currentImageIndex cr + int (Suc k)) mod ?n"
  proof -
    have "(?j + int k) mod ?n = (currentImageIndex cr + 1 + int k) mod ?n"
      by (rule mod_add_left_eq)
    also have "currentImageIndex cr + 1 + int k = currentImageIndex cr + int (Suc k)"
      by simp
    finally show ?thesis .
  qed
  ultimately show ?case
    by (simp only: replicate_Suc fst_run_card_Cons step)
qed

lemma run_card_backward:
  assumes "rotation s = Some cr" and "1 < length (images (card_el s))"
    and "0 \<le> currentImageIndex cr" and "currentImageIndex cr < int (length (images (card_el s)))"
    and "prev_listener cr"
  shows "shown_index (fst (run_card (replicate k PrevClick) s)) =
           Some ((currentImageIndex cr - int k) mod int (length (images (card_el s))))"
  using assms
proof (induction k arbitrary: s cr)
  case 0
  then show ?case by (simp add: shown_index_def)
next
  case (Suc k)
  let ?n = "int (length (images (card_el s)))"
  let ?j = "(currentImageIndex cr - 1 + ?n) mod ?n"
  let ?s1 = "fst (rotate_to ?j cr s)"
  let ?cr1 = "cr\<lparr>currentImageIndex := ?j\<rparr>"
  have pos: "0 < ?n" using Suc.prems(2) by arith
  have j: "0 \<le> ?j" "?j < ?n" using pos by simp_all
  have step: "handle_card PrevClick s = rotate_to ?j cr s"
    using Suc.prems by (intro handle_prev)
  have rot: "rotation ?s1 = Some ?cr1"
    and len: "length (images (card_el ?s1)) = length (images (card_el s))"
    using rotate_to_in_range(2,3) [OF j, of cr] by simp_all
  have cr1: "1 < length (images (card_el ?s1))" "0 \<le> currentImageIndex ?cr1"
    "currentImageIndex ?cr1 < int (length (images (card_el ?s1)))" "prev_listener ?cr1"
    using Suc.prems(2,5) j len by simp_all
  have "shown_index (fst (run_card (replicate k PrevClick) ?s1)) =
          Some ((currentImageIndex ?cr1 - int k) mod int (length (images (card_el ?s1))))"
    using rot cr1 by (rule Suc.IH)
  then have "shown_index (fst (run_card (replicate k PrevClick) ?s1)) = Some ((?j - int k) mod ?n)"
    using len by simp
  moreover have "(?j - int k) mod ?n = (currentImageIndex cr - int (Suc k)) mod ?n"
  proof -
    have "(?j - int k) mod ?n = ((currentImageIndex cr - 1 + ?n) - int k) mod ?n"
      by (rule mod_diff_left_eq)
    also have "\<dots> = ((currentImageIndex cr - int (Suc k)) + ?n) mod ?n"
      by (simp add: algebra_simps)
    also have "\<dots> = (currentImageIndex cr - int (Suc k)) mod ?n"
      by simp
    finally show ?thesis .
  qed
  ultimately show ?case
    by (simp only: replicate_Suc fst_run_card_Cons step)
qed

lemma run_card_in_range:
  assumes "carousel_inv s" and "rotation s = Some cr"
  shows "\<exists>j. shown_index (fst (run_card evs s)) = Some j \<and> 0 \<le> j \<and>
             j < int (length (images (card_el s)))"
proof -
  let ?s' = "fst (run_card evs s)"
  have inv: "carousel_inv ?s'" and len: "length (images (card_el ?s')) = length (images (card_el s))"
    using run_card_keeps [OF assms(1), of evs] by simp_all
  have "1 < length (images (card_el s))"
    using assms by (simp add: carousel_inv_def)
  then have "rotation ?s' \<noteq> None"
    using inv len by (cases "rotation ?s'") (simp_all add: carousel_inv_def)
  then obtain cr' where "rotation ?s' = Some cr'" by blast
  then show ?thesis
    using inv len by (simp add: carousel_inv_def shown_index_def)
qed

lemma setup_card_rotating:
  "1 < length (images c) \<Longrightarrow>
     setup_card c =
       \<lparr>card_el = c,
        rotation = Some \<lparr>currentImageIndex = 0, prev_listener = (prevBtn c \<noteq> None),
                         next_listener = (nextBtn c \<noteq> None), interval = 5000\<rparr>\<rparr>"
  by (simp add: setup_card_def)

lemma setup_card_single:
  "length (images c) \<le> 1 \<Longrightarrow>
     setup_card c =
       \<lparr>card_el = c\<lparr>imageNav := map_option (\<lambda>nav. nav\<lparr>style_display := ''none''\<rparr>) (imageNav c)\<rparr>,
        rotation = None\<rparr>"
  by (cases "imageNav c") (simp_all add: setup_card_def)

lemma run_card_idle: "rotation s = None \<Longrightarrow> run_card evs s = (s, [])"
  by (induction evs) (simp_all add: handle_card_def)

text \<open>
  C3. On a carousel with \<open>N > 1\<close> images and the index \<open>i\<close> in \<open>[0, N)\<close>, whichever
  of the two buttons the card has: where the previous button exists, a click on it sets
  the index to \<open>(i - 1 + N) mod N\<close>, shows exactly the image at the new index, and
  \<open>k\<close> such clicks lead from \<open>i\<close> to \<open>(i - k) mod N\<close>; where the next button
  exists, a click on it sets the index to \<open>(i + 1) mod N\<close>, shows exactly that image,
  and \<open>k\<close> such clicks lead from \<open>i\<close> to \<open>(i + k) mod N\<close> (from 0:
  0, 1, ..., N - 1, 0, ...). With or without buttons, after any sequence of clicks and
  timer firings the index is in \<open>[0, N)\<close> and no callback has thrown.
\<close>

theorem carousel_prev_next:
  assumes "rotation s = Some cr" and "1 < length (images (card_el s))"
    and "0 \<le> currentImageIndex cr" and "currentImageIndex cr < int (length (images (card_el s)))"
  shows "(prev_listener cr \<longrightarrow>
            shown_index (fst (handle_card PrevClick s)) =
              Some ((currentImageIndex cr - 1 + int (length (images (card_el s))))
                      mod int (length (images (card_el s)))) \<and>
            snd (handle_card PrevClick s) = None \<and>
            displayed (fst (handle_card PrevClick s)) =
              [nat ((currentImageIndex cr - 1 + int (length (images (card_el s))))
                      mod int (length (images (card_el s))))] \<and>
            shown_index (fst (run_card (replicate k PrevClick) s)) =
              Some ((currentImageIndex cr - int k) mod int (length (images (card_el s))))) \<and>
         (next_listener cr \<longrightarrow>
            shown_index (fst (handle_card NextClick s)) =
              Some ((currentImageIndex cr + 1) mod int (length (images (card_el s)))) \<and>
            snd (handle_card NextClick s) = None \<and>
            displayed (fst (handle_card NextClick s)) =
              [nat ((currentImageIndex cr + 1) mod int (length (images (card_el s))))] \<and>
            shown_index (fst (run_card (replicate k NextClick) s)) =
              Some ((currentImageIndex cr + int k) mod int (length (images (card_el s))))) \<and>
         (\<exists>j. shown_index (fst (run_card evs s)) = Some j \<and> 0 \<le> j \<and>
               j < int (length (images (card_el s)))) \<and>
         snd (run_card evs s) = []"
proof -
  let ?n = "int (length (images (card_el s)))"
  let ?p = "(currentImageIndex cr - 1 + ?n) mod ?n"
  let ?q = "(currentImageIndex cr + 1) mod ?n"
  have pos: "0 < ?n" using assms(2) by arith
  have p: "0 \<le> ?p" "?p < ?n" and q: "0 \<le> ?q" "?q < ?n" using pos by simp_all
  have inv: "carousel_inv s" using assms by (simp add: carousel_inv_def)
  have backward: "shown_index (fst (handle_card PrevClick s)) = Some ?p \<and>
      snd (handle_card PrevClick s) = None \<and>
      displayed (fst (handle_card PrevClick s)) = [nat ?p] \<and>
      shown_index (fst (run_card (replicate k PrevClick) s)) =
        Some ((currentImageIndex cr - int k) mod ?n)"
    if pl: "prev_listener cr"
  proof -
    have prev: "handle_card PrevClick s = rotate_to ?p cr s"
      using assms pl by (rule handle_prev)
    have p1: "shown_index (fst (handle_card PrevClick s)) = Some ?p"
      using rotate_to_in_range(2) [OF p, of cr] by (simp only: prev shown_index_def) simp
    have p2: "snd (handle_card PrevClick s) = None"
      using rotate_to_in_range(1) [OF p, of cr] by (simp only: prev)
    have p3: "displayed (fst (handle_card PrevClick s)) = [nat ?p]"
      using rotate_to_in_range(4) [OF p, of cr] by (simp only: prev)
    have bw: "shown_index (fst (run_card (replicate k PrevClick) s)) =
        Some ((currentImageIndex cr - int k) mod ?n)"
      using assms pl by (rule run_card_backward)
    from p1 p2 p3 bw show ?thesis by blast
  qed
  have forward: "shown_index (fst (handle_card NextClick s)) = Some ?q \<and>
      snd (handle_card NextClick s) = None \<and>
      displayed (fst (handle_card NextClick s)) = [nat ?q] \<and>
      shown_index (fst (run_card (replicate k NextClick) s)) =
        Some ((currentImageIndex cr + int k) mod ?n)"
    if nl: "next_listener cr"
  proof -
    have ev: "NextClick = TimerFire \<or> NextClick = NextClick \<and> next_listener cr"
      using nl by simp
    have nxt: "handle_card NextClick s = rotate_to ?q cr s"
      using assms ev by (rule handle_next)
    have q1: "shown_index (fst (handle_card NextClick s)) = Some ?q"
      using rotate_to_in_range(2) [OF q, of cr] by (simp only: nxt shown_index_def) simp
    have q2: "snd (handle_card NextClick s) = None"
      using rotate_to_in_range(1) [OF q, of cr] by (simp only: nxt)
    have q3: "displayed (fst (handle_card NextClick s)) = [nat ?q]"
      using rotate_to_in_range(4) [OF q, of cr] by (simp only: nxt)
    have fw: "shown_index (fst (run_card (replicate k NextClick) s)) =
        Some ((currentImageIndex cr + int k) mod ?n)"
      using assms ev by (rule run_card_forward)
    from q1 q2 q3 fw show ?thesis by blast
  qed
  have rng: "\<exists>j. shown_index (fst (run_card evs s)) = Some j \<and> 0 \<le> j \<and> j < ?n"
    using inv assms(1) by (rule run_card_in_range)
  have noerr: "snd (run_card evs s) = []"
    using run_card_keeps [OF inv, of evs] by simp
  from backward forward rng noerr show ?thesis by blast
qed

text \<open>
  The theorem at the states that the set-up leaves for two cards of three images. With
  both buttons: index 0, from which one click on previous shows image 2 and four clicks
  on next show image 1. With the next button only: four clicks on next show image 1 as
  well, and a mixed sequence of events throws nothing.
\<close>

theorem carousel_prev_next_witness:
  "rotation (setup_card
      \<lparr>images = [\<lparr>classList = [''project-img'', ''active'']\<rparr>,
                 \<lparr>classList = [''project-img'']\<rparr>,
                 \<lparr>classList = [''project-img'']\<rparr>],
       prevBtn = Some \<lparr>classList = [''prev-btn''], style_display = ''''\<rparr>,
       nextBtn = Some \<lparr>classList = [''next-btn''], style_display = ''''\<rparr>,
       imageNav = None\<rparr>) =
     Some \<lparr>currentImageIndex = 0, prev_listener = True, next_listener = True, interval = 5000\<rparr> \<and>
   shown_index (fst (handle_card PrevClick (setup_card
      \<lparr>images = [\<lparr>classList = [''project-img'', ''active'']\<rparr>,
                 \<lparr>classList = [''project-img'']\<rparr>,
                 \<lparr>classList = [''project-img'']\<rparr>],
       prevBtn = Some \<lparr>classList = [''prev-btn''], style_display = ''''\<rparr>,
       nextBtn = Some \<lparr>classList = [''next-btn''], style_display = ''''\<rparr>,
       imageNav = None\<rparr>))) = Some 2 \<and>
   shown_index (fst (run_card (replicate 4 NextClick) (setup_card
      \<lparr>images = [\<lparr>classList = [''project-img'', ''active'']\<rparr>,
                 \<lparr>classList = [''project-img'']\<rparr>,
                 \<lparr>classList = [''project-img'']\<rparr>],
       prevBtn = Some \<lparr>classList = [''prev-btn''], style_display = ''''\<rparr>,
       nextBtn = Some \<lparr>classList = [''next-btn''], style_display = ''''\<rparr>,
       imageNav = None\<rparr>))) = Some 1 \<and>
   rotation (setup_card
      \<lparr>images = [\<lparr>classList = [''project-img'', ''active'']\<rparr>,
                 \<lparr>classList = [''project-img'']\<rparr>,
                 \<lparr>classList = [''project-img'']\<rparr>],
       prevBtn = None,
       nextBtn = Some \<lparr>classList = [''next-btn''], style_display = ''''\<rparr>,
       imageNav = None\<rparr>) =
     Some \<lparr>currentImageIndex = 0, prev_listener = False, next_listener = True, interval = 5000\<rparr> \<and>
   shown_index (fst (run_card (replicate 4 NextClick) (setup_card
      \<lparr>images = [\<lparr>classList = [''project-img'', ''active'']\<rparr>,
                 \<lparr>classList = [''project-img'']\<rparr>,
                 \<lparr>classList = [''project-img'']\<rparr>],
       prevBtn = None,
       nextBtn = Some \<lparr>classList = [''next-btn''], style_display = ''''\<rparr>,
       imageNav = None\<rparr>))) = Some 1 \<and>
   snd (run_card [PrevClick, NextClick, TimerFire] (setup_card
      \<lparr>images = [\<lparr>classList = [''project-img'', ''active'']\<rparr>,
                 \<lparr>classList = [''project-img'']\<rparr>,
                 \<lparr>classList = [''project-img'']\<rparr>],
       prevBtn = None,
       nextBtn = Some \<lparr>classList = [''next-btn''], style_display = ''''\<rparr>,
       imageNav = None\<rparr>)) = []"
  using carousel_prev_next
    [of "setup_card
      \<lparr>images = [\<lparr>classList = [''project-img'', ''active'']\<rparr>,
                 \<lparr>classList = [''project-img'']\<rparr>,
                 \<lparr>classList = [''project-img'']\<rparr>],
       prevBtn = Some \<lparr>classList = [''prev-btn''], style_display = ''''\<rparr>,
       nextBtn = Some \<lparr>classList = [''next-btn''], style_display = ''''\<rparr>,
       imageNav = None\<rparr>"
      "\<lparr>currentImageIndex = 0, prev_listener = True, next_listener = True, interval = 5000\<rparr>"
      4 "[]"]
    carousel_prev_next
    [of "setup_card
      \<lparr>images = [\<lparr>classList = [''project-img'', ''active'']\<rparr>,
                 \<lparr>classList = [''project-img'']\<rparr>,
                 \<lparr>classList = [''project-img'']\<rparr>],
       prevBtn = None,
       nextBtn = Some \<lparr>classList = [''next-btn''], style_display = ''''\<rparr>,
       imageNav = None\<rparr>"
      "\<lparr>currentImageIndex = 0, prev_listener = False, next_listener = True, interval = 5000\<rparr>"
      4 "[PrevClick, NextClick, TimerFire]"]
  by (simp add: setup_card_def)

lemma rotating_reachable:
  assumes "1 < length (images c)"
  shows "\<exists>cr. rotation (fst (run_card evs (setup_card c))) = Some cr \<and>
           length (images (card_el (fst (run_card evs (setup_card c))))) = length (images c) \<and>
           0 \<le> currentImageIndex cr \<and> currentImageIndex cr < int (length (images c))"
proof -
  let ?s = "fst (run_card evs (setup_card c))"
  have start: "card_el (setup_card c) = c"
    using assms by (simp add: setup_card_rotating)
  have inv: "carousel_inv ?s"
    and len: "length (images (card_el ?s)) = length (images c)"
    using run_card_keeps [OF setup_card_inv, of evs c] start by simp_all
  have "rotation ?s \<noteq> None"
    using inv len assms by (cases "rotation ?s") (simp_all add: carousel_inv_def)
  then obtain cr where cr: "rotation ?s = Some cr" by blast
  then show ?thesis
    using inv len by (simp add: carousel_inv_def)
qed

text \<open>
  C4. On a carousel with \<open>N > 1\<close> images the set-up installs a timer of period 5000
  and starts at index 0. In every state the card can reach, a firing of the timer takes
  the index \<open>i\<close> to \<open>(i + 1) mod N\<close> without throwing, and where the next button
  exists it does exactly what a click on it does. So \<open>k\<close> firings with no click in
  between lead from 0 to \<open>k mod N\<close>; with four images, five firings end at index 1.
\<close>

theorem carousel_auto_rotation:
  assumes "1 < length (images c)"
  shows "rotation (setup_card c) =
           Some \<lparr>currentImageIndex = 0, prev_listener = (prevBtn c \<noteq> None),
                 next_listener = (nextBtn c \<noteq> None), interval = 5000\<rparr> \<and>
         (\<exists>cr. rotation (fst (run_card evs (setup_card c))) = Some cr \<and>
            shown_index (fst (handle_card TimerFire (fst (run_card evs (setup_card c))))) =
              Some ((currentImageIndex cr + 1) mod int (length (images c))) \<and>
            snd (handle_card TimerFire (fst (run_card evs (setup_card c)))) = None \<and>
            (next_listener cr \<longrightarrow>
               handle_card TimerFire (fst (run_card evs (setup_card c))) =
               handle_card NextClick (fst (run_card evs (setup_card c))))) \<and>
         shown_index (fst (run_card (replicate k TimerFire) (setup_card c))) =
           Some (int k mod int (length (images c))) \<and>
         (length (images c) = 4 \<longrightarrow>
            shown_index (fst (run_card (replicate 5 TimerFire) (setup_card c))) = Some 1)"
proof -
  let ?n = "int (length (images c))"
  let ?init = "setup_card c"
  let ?first = "\<lparr>currentImageIndex = 0, prev_listener = (prevBtn c \<noteq> None),
                 next_listener = (nextBtn c \<noteq> None), interval = 5000\<rparr>"
  let ?s = "fst (run_card evs ?init)"
  have s0: "?init = \<lparr>card_el = c, rotation = Some ?first\<rparr>"
    using assms by (rule setup_card_rotating)
  have rot0: "rotation ?init = Some ?first" and card0: "card_el ?init = c"
    by (simp_all add: s0)
  have a1: "1 < length (images (card_el ?init))"
    using assms by (simp only: card0)
  have a2: "0 \<le> currentImageIndex ?first"
    by simp
  have "(0::int) < int (length (images c))"
    using assms by arith
  then have a3: "currentImageIndex ?first < int (length (images (card_el ?init)))"
    by (simp only: card0 carousel.simps)
  note a = a1 a2 a3
  have tick: "ev = TimerFire \<or> ev = NextClick \<and> next_listener cr" if "ev = TimerFire" for ev cr
    using that by simp
  have cycle: "shown_index (fst (run_card (replicate m TimerFire) ?init)) = Some (int m mod ?n)" for m
    using run_card_forward [OF rot0 a tick, of TimerFire m] by (simp add: card0)
  obtain cr where cr: "rotation ?s = Some cr"
    and len: "length (images (card_el ?s)) = length (images c)"
    and rng: "0 \<le> currentImageIndex cr" "currentImageIndex cr < int (length (images c))"
    using rotating_reachable [OF assms, of evs] by blast
  have b: "1 < length (images (card_el ?s))" "0 \<le> currentImageIndex cr"
    "currentImageIndex cr < int (length (images (card_el ?s)))"
    using assms rng by (simp_all add: len)
  let ?j = "(currentImageIndex cr + 1) mod int (length (images (card_el ?s)))"
  have pos: "0 < int (length (images (card_el ?s)))"
    using b(1) by arith
  have j: "0 \<le> ?j" "?j < int (length (images (card_el ?s)))"
    using pos by simp_all
  have fire: "handle_card TimerFire ?s = rotate_to ?j cr ?s"
    using cr b tick [of TimerFire cr] by (intro handle_next) simp_all
  have click: "handle_card NextClick ?s = rotate_to ?j cr ?s" if "next_listener cr"
    using cr b that by (intro handle_next) simp_all
  have c2: "shown_index (fst (handle_card TimerFire ?s)) =
      Some ((currentImageIndex cr + 1) mod ?n)"
    using rotate_to_in_range(2) [OF j, of cr] by (simp add: fire shown_index_def len)
  have c3: "snd (handle_card TimerFire ?s) = None"
    using rotate_to_in_range(1) [OF j, of cr] by (simp only: fire)
  have c4: "next_listener cr \<longrightarrow> handle_card TimerFire ?s = handle_card NextClick ?s"
    using fire click by simp
  have c5: "length (images c) = 4 \<longrightarrow>
      shown_index (fst (run_card (replicate 5 TimerFire) ?init)) = Some 1"
  proof
    assume four: "length (images c) = 4"
    have "shown_index (fst (run_card (replicate 5 TimerFire) ?init)) = Some (int 5 mod ?n)"
      by (rule cycle)
    then show "shown_index (fst (run_card (replicate 5 TimerFire) ?init)) = Some 1"
      by (simp add: four)
  qed
  from rot0 cr c2 c3 c4 cycle [of k] c5 show ?thesis by blast
qed

text \<open>The theorem at a card of four images without buttons, after five firings.\<close>

theorem carousel_auto_rotation_witness:
  "shown_index (fst (run_card (replicate 5 TimerFire) (setup_card
      \<lparr>images = [\<lparr>classList = [''project-img'', ''active'']\<rparr>,
                 \<lparr>classList = [''project-img'']\<rparr>,
                 \<lparr>classList = [''project-img'']\<rparr>,
                 \<lparr>classList = [''project-img'']\<rparr>],
       prevBtn = None, nextBtn = None, imageNav = None\<rparr>))) = Some 1"
  using carousel_auto_rotation
    [of "\<lparr>images = [\<lparr>classList = [''project-img'', ''active'']\<rparr>,
                 \<lparr>classList = [''project-img'']\<rparr>,
                 \<lparr>classList = [''project-img'']\<rparr>,
                 \<lparr>classList = [''project-img'']\<rparr>],
       prevBtn = None, nextBtn = None, imageNav = None\<rparr>" "[]" 5]
  by simp

text \<open>
  C5, as the specification states it: on a card with at most one image the previous and
  next controls are hidden. The set-up hides the \<^verbatim>\<open>.image-nav\<close> element and nothing
  else, and only if the card has one: a card with one image and two buttons outside
  such an element is left exactly as it was, with both buttons shown.
\<close>

theorem single_image_card_controls_shown:
  "setup_card \<lparr>images = [\<lparr>classList = [''project-img'', ''active'']\<rparr>],
               prevBtn = Some \<lparr>classList = [''prev-btn''], style_display = ''''\<rparr>,
               nextBtn = Some \<lparr>classList = [''next-btn''], style_display = ''''\<rparr>,
               imageNav = None\<rparr> =
     \<lparr>card_el = \<lparr>images = [\<lparr>classList = [''project-img'', ''active'']\<rparr>],
               prevBtn = Some \<lparr>classList = [''prev-btn''], style_display = ''''\<rparr>,
               nextBtn = Some \<lparr>classList = [''next-btn''], style_display = ''''\<rparr>,
               imageNav = None\<rparr>,
      rotation = None\<rparr> \<and>
   \<not> spec_controls_hidden (card_el (setup_card
       \<lparr>images = [\<lparr>classList = [''project-img'', ''active'']\<rparr>],
        prevBtn = Some \<lparr>classList = [''prev-btn''], style_display = ''''\<rparr>,
        nextBtn = Some \<lparr>classList = [''next-btn''], style_display = ''''\<rparr>,
        imageNav = None\<rparr>))"
  by (simp add: setup_card_def spec_controls_hidden_def control_hidden_def)

text \<open>
  C5, amended. On a card with at most one image the set-up sets the display of the
  card's \<^verbatim>\<open>.image-nav\<close> element, if it has one, to \<^verbatim>\<open>none\<close> (which hides the
  controls inside it) and changes nothing else; it creates no index, no click listener
  and no timer, so no click and no timer event changes the card or the image it
  displays.
\<close>

theorem single_image_card_static:
  assumes "length (images c) \<le> 1"
  shows "rotation (setup_card c) = None \<and>
         imageNav (card_el (setup_card c)) =
           map_option (\<lambda>nav. nav\<lparr>style_display := ''none''\<rparr>) (imageNav c) \<and>
         images (card_el (setup_card c)) = images c \<and>
         prevBtn (card_el (setup_card c)) = prevBtn c \<and>
         nextBtn (card_el (setup_card c)) = nextBtn c \<and>
         (imageNav c \<noteq> None \<longrightarrow> spec_controls_hidden (card_el (setup_card c))) \<and>
         run_card evs (setup_card c) = (setup_card c, []) \<and>
         displayed (fst (run_card evs (setup_card c))) = displayed \<lparr>card_el = c, rotation = None\<rparr>"
proof -
  have s: "setup_card c =
       \<lparr>card_el = c\<lparr>imageNav := map_option (\<lambda>nav. nav\<lparr>style_display := ''none''\<rparr>) (imageNav c)\<rparr>,
        rotation = None\<rparr>"
    using assms by (rule setup_card_single)
  have idle: "run_card evs (setup_card c) = (setup_card c, [])"
    by (rule run_card_idle) (simp add: s)
  have hid: "imageNav c \<noteq> None \<longrightarrow> spec_controls_hidden (card_el (setup_card c))"
    by (auto simp: s spec_controls_hidden_def control_hidden_def split: option.splits)
  have disp: "displayed (fst (run_card evs (setup_card c))) = displayed \<lparr>card_el = c, rotation = None\<rparr>"
    by (simp add: idle) (simp add: s displayed_def)
  from idle hid disp show ?thesis by (simp add: s)
qed

text \<open>
  The theorem at a card with one image, both buttons and the navigation element: the
  element is hidden and three events leave the card as the set-up left it.
\<close>

theorem single_image_card_static_witness:
  "run_card [NextClick, TimerFire, PrevClick]
     (setup_card \<lparr>images = [\<lparr>classList = [''project-img'', ''active'']\<rparr>],
                  prevBtn = Some \<lparr>classList = [''prev-btn''], style_display = ''''\<rparr>,
                  nextBtn = Some \<lparr>classList = [''next-btn''], style_display = ''''\<rparr>,
                  imageNav = Some \<lparr>classList = [''image-nav''], style_display = ''''\<rparr>\<rparr>) =
   (\<lparr>card_el = \<lparr>images = [\<lparr>classList = [''project-img'', ''active'']\<rparr>],
                prevBtn = Some \<lparr>classList = [''prev-btn''], style_display = ''''\<rparr>,
                nextBtn = Some \<lparr>classList = [''next-btn''], style_display = ''''\<rparr>,
                imageNav = Some \<lparr>classList = [''image-nav''], style_display = ''none''\<rparr>\<rparr>,
     rotation = None\<rparr>, [])"
  using single_image_card_static
    [of "\<lparr>images = [\<lparr>classList = [''project-img'', ''active'']\<rparr>],
                  prevBtn = Some \<lparr>classList = [''prev-btn''], style_display = ''''\<rparr>,
                  nextBtn = Some \<lparr>classList = [''next-btn''], style_display = ''''\<rparr>,
                  imageNav = Some \<lparr>classList = [''image-nav''], style_display = ''''\<rparr>\<rparr>"
        "[NextClick, TimerFire, PrevClick]"]
  by (simp add: setup_card_def)

section \<open>Properties of the contact composer\<close>

lemma hex_digits_table: "list_all (\<lambda>d. hex_value (hex_digit d) = Some d) [0 ..< 16]"
  by code_simp

lemma hex_value_digit: "d < 16 \<Longrightarrow> hex_value (hex_digit d) = Some d"
  using hex_digits_table by (simp add: list_all_iff)

lemma unreserved_not_percent: "uri_unreserved c \<Longrightarrow> c \<noteq> CHR ''%''"
  by (auto simp: uri_unreserved_def)

lemma percent_decode_byte:
  "percent_decode (encode_byte c @ rest) = map_option ((#) c) (percent_decode rest)"
proof (cases "uri_unreserved c")
  case True
  then show ?thesis
    by (simp add: encode_byte_def unreserved_not_percent)
next
  case False
  let ?n = "of_char c :: nat"
  have hi: "hex_value (hex_digit (?n div 16)) = Some (?n div 16)"
    by (rule hex_value_digit) (simp add: less_mult_imp_div_less)
  have lo: "hex_value (hex_digit (?n mod 16)) = Some (?n mod 16)"
    by (rule hex_value_digit) simp
  have same: "char_of (16 * (?n div 16) + ?n mod 16) = c"
    by simp
  show ?thesis
    using False by (simp add: encode_byte_def hi lo same del: mult_div_mod_eq)
qed

lemma percent_decode_encode: "percent_decode (encodeURIComponent s) = Some s"
proof (induction s)
  case Nil
  show ?case by (simp add: encodeURIComponent_def)
next
  case (Cons c s)
  have "encodeURIComponent (c # s) = encode_byte c @ encodeURIComponent s"
    by (simp add: encodeURIComponent_def)
  then show ?case
    by (simp only: percent_decode_byte Cons.IH) simp
qed

lemma encode_byte_chars: "x \<in> set (encode_byte c) \<Longrightarrow> x = CHR ''%'' \<or> uri_unreserved x \<or> x \<in> set ''0123456789ABCDEF''"
proof (cases "uri_unreserved c")
  case True
  assume "x \<in> set (encode_byte c)"
  with True show ?thesis by (simp add: encode_byte_def)
next
  case False
  assume x: "x \<in> set (encode_byte c)"
  have d: "hex_digit d \<in> set ''0123456789ABCDEF''" if "d < 16" for d
    using that unfolding hex_digit_def by (intro nth_mem) simp
  have "hex_digit ((of_char c :: nat) div 16) \<in> set ''0123456789ABCDEF''"
    by (rule d) (simp add: less_mult_imp_div_less)
  moreover have "hex_digit ((of_char c :: nat) mod 16) \<in> set ''0123456789ABCDEF''"
    by (rule d) simp
  ultimately show ?thesis
    using x False by (auto simp: encode_byte_def)
qed

lemma encodeURIComponent_no_separator:
  "CHR ''&'' \<notin> set (encodeURIComponent s) \<and> CHR ''?'' \<notin> set (encodeURIComponent s) \<and>
   CHR ''='' \<notin> set (encodeURIComponent s)"
proof -
  have "x \<noteq> CHR ''&'' \<and> x \<noteq> CHR ''?'' \<and> x \<noteq> CHR ''=''" if "x \<in> set (encodeURIComponent s)" for x
  proof -
    from that obtain c where "x \<in> set (encode_byte c)"
      by (auto simp: encodeURIComponent_def)
    then have "x = CHR ''%'' \<or> uri_unreserved x \<or> x \<in> set ''0123456789ABCDEF''"
      by (rule encode_byte_chars)
    then show ?thesis
      by (auto simp: uri_unreserved_def)
  qed
  then show ?thesis by blast
qed

lemma submit_location:
  "location_href (fst (submit s)) =
     mailtoLink (formData_get (form_fields (form s)) ''name'')
       (formData_get (form_fields (form s)) ''email'')
       (formData_get (form_fields (form s)) ''subject'')
       (formData_get (form_fields (form s)) ''message'')"
  by (simp add: submit_def Let_def split: option.splits)

text \<open>
  C7. Every submission sends the window to one \<^verbatim>\<open>mailto:\<close> request for the fixed
  recipient, whose subject is the percent-encoded subject field and whose body is the
  percent-encoding of \<^verbatim>\<open>Name: {name}\nEmail: {email}\n\nMessage:\n{message}\<close>. The
  encoding is faithful (decoding gives the text back) and contains no \<^verbatim>\<open>&\<close>, so the
  request has exactly this subject and this body. For Jane, jane@x.com, Hi and Hello the
  body of the request is the encoding of
  \<^verbatim>\<open>Name: Jane\nEmail: jane@x.com\n\nMessage:\nHello\<close> and decodes to exactly that.
\<close>

theorem contact_compose_request:
  "location_href (fst (submit s)) =
     ''mailto:imriteshreddy1035@gmail.com?subject=''
       @ encodeURIComponent (js_to_string (formData_get (form_fields (form s)) ''subject''))
       @ ''&body=''
       @ encodeURIComponent
           (''Name: '' @ js_to_string (formData_get (form_fields (form s)) ''name'')
            @ ''\<newline>Email: '' @ js_to_string (formData_get (form_fields (form s)) ''email'')
            @ ''\<newline>\<newline>Message:\<newline>''
            @ js_to_string (formData_get (form_fields (form s)) ''message'')) \<and>
   percent_decode (encodeURIComponent text) = Some text \<and>
   CHR ''&'' \<notin> set (encodeURIComponent text) \<and>
   (formData_get (form_fields (form s)) ''name'' = Some ''Jane'' \<and>
    formData_get (form_fields (form s)) ''email'' = Some ''jane@x.com'' \<and>
    formData_get (form_fields (form s)) ''subject'' = Some ''Hi'' \<and>
    formData_get (form_fields (form s)) ''message'' = Some ''Hello'' \<longrightarrow>
      location_href (fst (submit s)) =
        ''mailto:imriteshreddy1035@gmail.com?subject=Hi&body=''
          @ encodeURIComponent ''Name: Jane\<newline>Email: jane@x.com\<newline>\<newline>Message:\<newline>Hello'' \<and>
      encodeURIComponent ''Name: Jane\<newline>Email: jane@x.com\<newline>\<newline>Message:\<newline>Hello'' =
        ''Name%3A%20Jane%0AEmail%3A%20jane%40x.com%0A%0AMessage%3A%0AHello'' \<and>
      percent_decode ''Name%3A%20Jane%0AEmail%3A%20jane%40x.com%0A%0AMessage%3A%0AHello'' =
        Some ''Name: Jane\<newline>Email: jane@x.com\<newline>\<newline>Message:\<newline>Hello'')"
proof -
  have link: "location_href (fst (submit s)) =
     ''mailto:imriteshreddy1035@gmail.com?subject=''
       @ encodeURIComponent (js_to_string (formData_get (form_fields (form s)) ''subject''))
       @ ''&body=''
       @ encodeURIComponent
           (''Name: '' @ js_to_string (formData_get (form_fields (form s)) ''name'')
            @ ''\<newline>Email: '' @ js_to_string (formData_get (form_fields (form s)) ''email'')
            @ ''\<newline>\<newline>Message:\<newline>''
            @ js_to_string (formData_get (form_fields (form s)) ''message''))"
    by (simp add: submit_location mailtoLink_def message_body_def recipient_def)
  have enc: "encodeURIComponent ''Name: Jane\<newline>Email: jane@x.com\<newline>\<newline>Message:\<newline>Hello'' =
        ''Name%3A%20Jane%0AEmail%3A%20jane%40x.com%0A%0AMessage%3A%0AHello''"
    by code_simp
  have dec: "percent_decode ''Name%3A%20Jane%0AEmail%3A%20jane%40x.com%0A%0AMessage%3A%0AHello'' =
        Some ''Name: Jane\<newline>Email: jane@x.com\<newline>\<newline>Message:\<newline>Hello''"
    using percent_decode_encode [of "''Name: Jane\<newline>Email: jane@x.com\<newline>\<newline>Message:\<newline>Hello''"]
    by (simp only: enc)
  have hi: "encodeURIComponent ''Hi'' = ''Hi''"
    by code_simp
  have jane: "location_href (fst (submit s)) =
        ''mailto:imriteshreddy1035@gmail.com?subject=Hi&body=''
          @ encodeURIComponent ''Name: Jane\<newline>Email: jane@x.com\<newline>\<newline>Message:\<newline>Hello''"
    if "formData_get (form_fields (form s)) ''name'' = Some ''Jane''"
      "formData_get (form_fields (form s)) ''email'' = Some ''jane@x.com''"
      "formData_get (form_fields (form s)) ''subject'' = Some ''Hi''"
      "formData_get (form_fields (form s)) ''message'' = Some ''Hello''"
    using that by (simp add: link js_to_string_def hi)
  show ?thesis
    using link jane enc dec percent_decode_encode encodeURIComponent_no_separator by blast
qed

text \<open>The theorem at the form filled in with Jane, jane@x.com, Hi and Hello.\<close>

theorem contact_compose_request_witness:
  "location_href (fst (submit
     \<lparr>form = \<lparr>form_fields =
                 [\<lparr>field_name = ''name'', default_value = '''', field_value = ''Jane''\<rparr>,
                  \<lparr>field_name = ''email'', default_value = '''', field_value = ''jane@x.com''\<rparr>,
                  \<lparr>field_name = ''subject'', default_value = '''', field_value = ''Hi''\<rparr>,
                  \<lparr>field_name = ''message'', default_value = '''', field_value = ''Hello''\<rparr>],
               submit_btn = Some \<lparr>innerHTML = ''Send Message'', style_background = ''''\<rparr>\<rparr>,
      location_href = ''index.html'', timeouts = []\<rparr>)) =
   ''mailto:imriteshreddy1035@gmail.com?subject=Hi&body=Name%3A%20Jane%0AEmail%3A%20jane%40x.com%0A%0AMessage%3A%0AHello''"
proof -
  let ?s = "\<lparr>form = \<lparr>form_fields =
                 [\<lparr>field_name = ''name'', default_value = '''', field_value = ''Jane''\<rparr>,
                  \<lparr>field_name = ''email'', default_value = '''', field_value = ''jane@x.com''\<rparr>,
                  \<lparr>field_name = ''subject'', default_value = '''', field_value = ''Hi''\<rparr>,
                  \<lparr>field_name = ''message'', default_value = '''', field_value = ''Hello''\<rparr>],
               submit_btn = Some \<lparr>innerHTML = ''Send Message'', style_background = ''''\<rparr>\<rparr>,
      location_href = ''index.html'', timeouts = []\<rparr>"
  have filled: "formData_get (form_fields (form ?s)) ''name'' = Some ''Jane'' \<and>
    formData_get (form_fields (form ?s)) ''email'' = Some ''jane@x.com'' \<and>
    formData_get (form_fields (form ?s)) ''subject'' = Some ''Hi'' \<and>
    formData_get (form_fields (form ?s)) ''message'' = Some ''Hello''"
    by (simp add: formData_get_def)
  from contact_compose_request [of ?s "''Hello''"] filled
  have link: "location_href (fst (submit ?s)) =
        ''mailto:imriteshreddy1035@gmail.com?subject=Hi&body=''
          @ encodeURIComponent ''Name: Jane\<newline>Email: jane@x.com\<newline>\<newline>Message:\<newline>Hello''"
    and enc: "encodeURIComponent ''Name: Jane\<newline>Email: jane@x.com\<newline>\<newline>Message:\<newline>Hello'' =
        ''Name%3A%20Jane%0AEmail%3A%20jane%40x.com%0A%0AMessage%3A%0AHello''"
    by blast+
  show ?thesis
    by (simp only: link enc) simp
qed

lemma submit_with_button:
  "submit_btn (form s) = Some b \<Longrightarrow>
     submit s =
       (s\<lparr>location_href :=
            mailtoLink (formData_get (form_fields (form s)) ''name'')
              (formData_get (form_fields (form s)) ''email'')
              (formData_get (form_fields (form s)) ''subject'')
              (formData_get (form_fields (form s)) ''message''),
          form := (form s)\<lparr>submit_btn :=
            Some (b\<lparr>innerHTML := confirmation, style_background := ''#10b981''\<rparr>)\<rparr>,
          timeouts := timeouts s @ [(3000, innerHTML b)]\<rparr>, None)"
  by (simp add: submit_def Let_def)

lemma submit_without_button:
  "submit_btn (form s) = None \<Longrightarrow> snd (submit s) = Some TypeError \<and> timeouts (fst (submit s)) = timeouts s"
  by (simp add: submit_def Let_def)

lemma restore_form:
  "form_fields (form (restore t s)) = form_reset (form_fields (form s)) \<and>
   submit_btn (form (restore t s)) =
     map_option (\<lambda>button. button\<lparr>innerHTML := t, style_background := ''''\<rparr>) (submit_btn (form s))"
  by (simp add: restore_def)

lemma form_reset_values:
  "map field_value (form_reset fs) = map default_value fs \<and>
   map field_name (form_reset fs) = map field_name fs \<and>
   map default_value (form_reset fs) = map default_value fs"
  by (simp add: form_reset_def)

text \<open>
  C8, as the specification states it: after the confirmation the label is the one before
  the submission and all fields are empty. \<^verbatim>\<open>form.reset()\<close> gives a field its
  default value, not the empty string: a form whose subject field comes with a default
  text shows that text again after the confirmation.
\<close>

theorem contact_reset_keeps_defaults:
  "spec_after_confirmation
     \<lparr>form = \<lparr>form_fields =
                 [\<lparr>field_name = ''name'', default_value = '''', field_value = ''Jane''\<rparr>,
                  \<lparr>field_name = ''subject'', default_value = ''Hello from your site'', field_value = ''Hi''\<rparr>],
               submit_btn = Some \<lparr>innerHTML = ''Send Message'', style_background = ''''\<rparr>\<rparr>,
      location_href = ''index.html'', timeouts = []\<rparr>
     (fire_timeout (fst (submit
        \<lparr>form = \<lparr>form_fields =
                 [\<lparr>field_name = ''name'', default_value = '''', field_value = ''Jane''\<rparr>,
                  \<lparr>field_name = ''subject'', default_value = ''Hello from your site'', field_value = ''Hi''\<rparr>],
               submit_btn = Some \<lparr>innerHTML = ''Send Message'', style_background = ''''\<rparr>\<rparr>,
         location_href = ''index.html'', timeouts = []\<rparr>))) = False \<and>
   map field_value (form_fields (form (fire_timeout (fst (submit
        \<lparr>form = \<lparr>form_fields =
                 [\<lparr>field_name = ''name'', default_value = '''', field_value = ''Jane''\<rparr>,
                  \<lparr>field_name = ''subject'', default_value = ''Hello from your site'', field_value = ''Hi''\<rparr>],
               submit_btn = Some \<lparr>innerHTML = ''Send Message'', style_background = ''''\<rparr>\<rparr>,
         location_href = ''index.html'', timeouts = []\<rparr>))))) = ['''', ''Hello from your site'']"
  by (simp add: spec_after_confirmation_def fire_timeout_def submit_def restore_def
      form_reset_def Let_def)

text \<open>
  C8, amended. A submission of a form that has a submit control shows the confirmation
  on the control and sets one time-out of 3000 with the label captured at the
  submission. Whenever that callback runs, it sets the label to exactly the captured
  text, clears the background and resets every field to its default value. When no
  other time-out is pending, the next time-out to fire is this one: afterwards the
  label is the one before the submission, every field has its default value, and the
  fields are empty if all defaults are.
\<close>

theorem contact_confirmation_reset:
  assumes "submit_btn (form s) = Some b"
  shows "snd (submit s) = None \<and>
         timeouts (fst (submit s)) = timeouts s @ [(3000, innerHTML b)] \<and>
         map_option innerHTML (submit_btn (form (fst (submit s)))) = Some confirmation \<and>
         map field_value (form_fields (form (fst (submit s)))) = map field_value (form_fields (form s)) \<and>
         (submit_btn (form later) \<noteq> None \<longrightarrow>
            map_option innerHTML (submit_btn (form (restore (innerHTML b) later))) = Some (innerHTML b) \<and>
            map_option style_background (submit_btn (form (restore (innerHTML b) later))) = Some '''') \<and>
         map field_value (form_fields (form (restore (innerHTML b) later))) =
           map default_value (form_fields (form later)) \<and>
         (timeouts s = [] \<longrightarrow>
            map_option innerHTML (submit_btn (form (fire_timeout (fst (submit s))))) = Some (innerHTML b) \<and>
            map field_value (form_fields (form (fire_timeout (fst (submit s))))) =
              map default_value (form_fields (form s)) \<and>
            map field_name (form_fields (form (fire_timeout (fst (submit s))))) =
              map field_name (form_fields (form s)) \<and>
            timeouts (fire_timeout (fst (submit s))) = [] \<and>
            (list_all (\<lambda>f. default_value f = '''') (form_fields (form s)) \<longrightarrow>
               list_all (\<lambda>f. field_value f = '''') (form_fields (form (fire_timeout (fst (submit s)))))))"
proof -
  note sub = submit_with_button [OF assms]
  have c1: "snd (submit s) = None"
    and c2: "timeouts (fst (submit s)) = timeouts s @ [(3000, innerHTML b)]"
    and c3: "map_option innerHTML (submit_btn (form (fst (submit s)))) = Some confirmation"
    and c4: "map field_value (form_fields (form (fst (submit s)))) = map field_value (form_fields (form s))"
    by (simp_all add: sub)
  have c5: "submit_btn (form later) \<noteq> None \<longrightarrow>
            map_option innerHTML (submit_btn (form (restore (innerHTML b) later))) = Some (innerHTML b) \<and>
            map_option style_background (submit_btn (form (restore (innerHTML b) later))) = Some ''''"
    by (auto simp: restore_form)
  have c6: "map field_value (form_fields (form (restore (innerHTML b) later))) =
           map default_value (form_fields (form later))"
    by (simp add: restore_form form_reset_values)
  have c7: "map_option innerHTML (submit_btn (form (fire_timeout (fst (submit s))))) = Some (innerHTML b) \<and>
            map field_value (form_fields (form (fire_timeout (fst (submit s))))) =
              map default_value (form_fields (form s)) \<and>
            map field_name (form_fields (form (fire_timeout (fst (submit s))))) =
              map field_name (form_fields (form s)) \<and>
            timeouts (fire_timeout (fst (submit s))) = [] \<and>
            (list_all (\<lambda>f. default_value f = '''') (form_fields (form s)) \<longrightarrow>
               list_all (\<lambda>f. field_value f = '''') (form_fields (form (fire_timeout (fst (submit s))))))"
    if "timeouts s = []"
    using that
    by (simp add: sub fire_timeout_def restore_def form_reset_def list_all_iff)
  from c1 c2 c3 c4 c5 c6 c7 show ?thesis by blast
qed

text \<open>
  The theorem at a form of two fields without default text: after the time-out the
  fields are empty and the control reads as before.
\<close>

theorem contact_confirmation_reset_witness:
  "fire_timeout (fst (submit
     \<lparr>form = \<lparr>form_fields =
                 [\<lparr>field_name = ''name'', default_value = '''', field_value = ''Jane''\<rparr>,
                  \<lparr>field_name = ''message'', default_value = '''', field_value = ''Hello''\<rparr>],
               submit_btn = Some \<lparr>innerHTML = ''Send Message'', style_background = ''''\<rparr>\<rparr>,
      location_href = ''index.html'', timeouts = []\<rparr>)) =
   \<lparr>form = \<lparr>form_fields =
                 [\<lparr>field_name = ''name'', default_value = '''', field_value = ''''\<rparr>,
                  \<lparr>field_name = ''message'', default_value = '''', field_value = ''''\<rparr>],
               submit_btn = Some \<lparr>innerHTML = ''Send Message'', style_background = ''''\<rparr>\<rparr>,
      location_href = mailtoLink (Some ''Jane'') None None (Some ''Hello''), timeouts = []\<rparr>"
  using contact_confirmation_reset
    [of "\<lparr>form = \<lparr>form_fields =
                 [\<lparr>field_name = ''name'', default_value = '''', field_value = ''Jane''\<rparr>,
                  \<lparr>field_name = ''message'', default_value = '''', field_value = ''Hello''\<rparr>],
               submit_btn = Some \<lparr>innerHTML = ''Send Message'', style_background = ''''\<rparr>\<rparr>,
      location_href = ''index.html'', timeouts = []\<rparr>"
      "\<lparr>innerHTML = ''Send Message'', style_background = ''''\<rparr>"]
  by (simp add: fire_timeout_def submit_def restore_def form_reset_def Let_def formData_get_def)

section \<open>Properties of the initialization\<close>

lemma init_toggle_absent: "hamburger p = None \<Longrightarrow> init p = Inl TypeError"
  by (simp add: init_def)

lemma init_toggle_present: "hamburger p = Some h \<Longrightarrow> \<exists>a. init p = Inr a"
  by (simp add: init_def)

text \<open>
  C9. Where an expected hook is absent, the initialization degrades gracefully through
  existence guards: the component concerned skips its set-up and no exception
  propagates. The typing text and the contact form are guarded; the navigation toggle,
  the navigation menu and the navbar are not. On a page without the toggle the first
  registration throws and nothing of the page is set up, typing text and contact form
  included; on a page with the toggle but without menu and navbar the set-up succeeds
  and every click on the toggle and every scroll event throws.
\<close>

theorem init_without_hamburger:
  "init \<lparr>hamburger = None,
         navMenu = Some \<lparr>classList = [''nav-menu'']\<rparr>,
         navLinks = [\<lparr>classList = [''nav-link''], href = Some ''#about''\<rparr>],
         navbar = Some \<lparr>classList = [''navbar'']\<rparr>,
         sections = [\<lparr>offsetTop = 0, id_attr = Some ''about''\<rparr>],
         typingText = Some ''Ritesh Reddy'',
         skillBars = [],
         projectCards = [],
         contactForm = Some \<lparr>form_fields = [], submit_btn = None\<rparr>,
         innerHeight = 800,
         location = ''index.html''\<rparr> = Inl TypeError \<and>
   (case init \<lparr>hamburger = Some \<lparr>classList = [''hamburger'']\<rparr>,
         navMenu = None,
         navLinks = [\<lparr>classList = [''nav-link''], href = Some ''#about''\<rparr>],
         navbar = None,
         sections = [\<lparr>offsetTop = 0, id_attr = Some ''about''\<rparr>],
         typingText = None,
         skillBars = [],
         projectCards = [],
         contactForm = None,
         innerHeight = 800,
         location = ''index.html''\<rparr> of
      Inl e \<Rightarrow> False
    | Inr a \<Rightarrow> snd (hamburger_click a) = Some TypeError \<and> snd (navbar_scroll 150 a) = Some TypeError)"
  by (simp add: init_def hamburger_click_def navbar_scroll_def Let_def)

end
